theory Spec2Isabelle
  imports Complex_Main "HOL-Library.List_Lexorder" "HOL-Library.Char_ord"
begin

section \<open>Go library functions the generator calls\<close>

text \<open>
  The generator (\<^verbatim>\<open>cli/generate.go\<close>) is written against Go's \<^verbatim>\<open>strings\<close> and
  \<^verbatim>\<open>path/filepath\<close> packages. Their functions are modelled here on byte strings
  (\<^typ>\<open>string\<close>), following the library's code for Unix paths: the separator is
  \<^verbatim>\<open>/\<close> and there is no volume name.
\<close>

subsection \<open>strings\<close>

definition HasPrefix :: "string \<Rightarrow> string \<Rightarrow> bool" where
  "HasPrefix s p = (length p \<le> length s \<and> take (length p) s = p)"

definition HasSuffix :: "string \<Rightarrow> string \<Rightarrow> bool" where
  "HasSuffix s suf = (length suf \<le> length s \<and> drop (length s - length suf) s = suf)"

definition TrimSuffix :: "string \<Rightarrow> string \<Rightarrow> string" where
  "TrimSuffix s suf = (if HasSuffix s suf then take (length s - length suf) s else s)"

text \<open>
  \<^verbatim>\<open>strings.Replace(s, old, new, n)\<close> replaces the first \<open>n\<close> non-overlapping
  occurrences of \<open>old\<close>, scanning from the left; a negative \<open>n\<close> replaces all. The
  generator calls it with a non-empty constant \<open>old\<close>; an empty \<open>old\<close> (where Go
  inserts \<open>new\<close> between the characters) is left alone here.
\<close>

function Replace_from :: "string \<Rightarrow> string \<Rightarrow> int \<Rightarrow> string \<Rightarrow> string" where
  "Replace_from old new n [] = []"
| "Replace_from old new n (c # cs) =
     (if n = 0 then c # cs
      else if old \<noteq> [] \<and> HasPrefix (c # cs) old
        then new @ Replace_from old new (n - 1) (drop (length old) (c # cs))
      else c # Replace_from old new n cs)"
  by pat_completeness auto
termination
  by (relation "measure (\<lambda>(old, new, n, s). length s)") auto

definition Replace :: "string \<Rightarrow> string \<Rightarrow> string \<Rightarrow> int \<Rightarrow> string" where
  "Replace s old new n = (if old = new \<or> n = 0 then s else Replace_from old new n s)"

text \<open>
  \<^verbatim>\<open>strings.Contains(s, substr)\<close>: \<open>substr\<close> occurs somewhere in \<open>s\<close>. The generator does
  not call it; it says below when \<^verbatim>\<open>Replace\<close> finds nothing to replace.
\<close>

fun Contains :: "string \<Rightarrow> string \<Rightarrow> bool" where
  "Contains [] substr = (substr = [])"
| "Contains (c # cs) substr = (HasPrefix (c # cs) substr \<or> Contains cs substr)"

text \<open>
  \<^verbatim>\<open>strings.Split(s, sep)\<close> cuts \<open>s\<close> at every non-overlapping occurrence of
  \<open>sep\<close>; the pieces never contain \<open>sep\<close> and there is one more piece than there are
  occurrences. An empty \<open>sep\<close> explodes the string into its bytes.
\<close>

function Split_from :: "string \<Rightarrow> string \<Rightarrow> string \<Rightarrow> string list" where
  "Split_from sep cur [] = [cur]"
| "Split_from sep cur (c # cs) =
     (if sep \<noteq> [] \<and> HasPrefix (c # cs) sep
        then cur # Split_from sep [] (drop (length sep) (c # cs))
      else Split_from sep (cur @ [c]) cs)"
  by pat_completeness auto
termination
  by (relation "measure (\<lambda>(sep, cur, s). length s)") auto

definition Split :: "string \<Rightarrow> string \<Rightarrow> string list" where
  "Split s sep = (if sep = [] then map (\<lambda>c. [c]) s else Split_from sep [] s)"

fun Join :: "string list \<Rightarrow> string \<Rightarrow> string" where
  "Join [] sep = []"
| "Join [e] sep = e"
| "Join (e # e' # es) sep = e @ sep @ Join (e' # es) sep"

subsection \<open>path/filepath\<close>

definition Separator :: char where
  "Separator = CHR ''/''"

text \<open>
  \<^verbatim>\<open>filepath.Clean\<close>: drop empty and \<^verbatim>\<open>.\<close> elements, let an inner \<^verbatim>\<open>..\<close> cancel the
  element before it, drop a \<^verbatim>\<open>..\<close> at the start of a rooted path, keep it at the start
  of a relative one. The stack \<open>st\<close> holds the elements written so far, last first.
\<close>

fun Clean_elems :: "bool \<Rightarrow> string list \<Rightarrow> string list \<Rightarrow> string list" where
  "Clean_elems rooted st [] = rev st"
| "Clean_elems rooted st (e # es) =
     (if e = [] \<or> e = ''.'' then Clean_elems rooted st es
      else if e = ''..'' then
        (case st of
           [] \<Rightarrow> if rooted then Clean_elems rooted [] es else Clean_elems rooted [e] es
         | t # ts \<Rightarrow>
             if t = ''..'' then Clean_elems rooted (e # st) es
             else Clean_elems rooted ts es)
      else Clean_elems rooted (e # st) es)"

definition Clean :: "string \<Rightarrow> string" where
  "Clean path =
     (if path = [] then ''.''
      else
        let rooted = (hd path = Separator);
            out = Join (Clean_elems rooted [] (Split path [Separator])) [Separator]
        in if rooted then Separator # out
           else if out = [] then ''.'' else out)"

text \<open>
  \<^verbatim>\<open>filepath.Base\<close>: the last element of the path, after trailing separators are
  removed; \<^verbatim>\<open>.\<close> for the empty path and \<^verbatim>\<open>/\<close> for a path of separators only.
\<close>

definition Base :: "string \<Rightarrow> string" where
  "Base path =
     (if path = [] then ''.''
      else
        let p = rev (dropWhile (\<lambda>c. c = Separator) (rev path));
            b = rev (takeWhile (\<lambda>c. c \<noteq> Separator) (rev p))
        in if b = [] then [Separator] else b)"

text \<open>
  \<^verbatim>\<open>filepath.Dir\<close>: everything up to and including the last separator, cleaned.
\<close>

definition Dir :: "string \<Rightarrow> string" where
  "Dir path = Clean (rev (dropWhile (\<lambda>c. c \<noteq> Separator) (rev path)))"

text \<open>\<^verbatim>\<open>filepath.Join\<close> of two elements: empty elements are ignored, the rest is cleaned.\<close>

definition filepath_Join :: "string \<Rightarrow> string \<Rightarrow> string" where
  "filepath_Join a b =
     (if a = [] \<and> b = [] then []
      else if a = [] then Clean b
      else if b = [] then Clean a
      else Clean (a @ [Separator] @ b))"

section \<open>Errors and abnormal termination\<close>

text \<open>
  A Go \<^verbatim>\<open>error\<close> is modelled by its message. \<^verbatim>\<open>fmt.Errorf\<close> with \<^verbatim>\<open>%v\<close> splices the
  message of the wrapped error into the new one. A function either returns, or ends the
  process through \<^verbatim>\<open>log.Fatalf\<close>, or panics.
\<close>

datatype error = Error (message: string)

datatype 'a outcome = Return 'a | Exit string | Panic string

section \<open>License detection over a file tree\<close>

subsection \<open>The tree as \<^verbatim>\<open>fs.WalkDir\<close> presents it\<close>

text \<open>
  \<^verbatim>\<open>fs.WalkDir(fsys, ".", fn)\<close> calls \<open>fn(path, d, err)\<close> for the root and then for
  every entry below it, directories before their contents and the names of a directory
  in lexical order. A call with a non-nil \<open>err\<close> reports a failed \<^verbatim>\<open>Stat\<close> of the root or
  a failed \<^verbatim>\<open>ReadDir\<close>; the closure of the generator returns that error without looking
  at \<open>d\<close>. As soon as \<open>fn\<close> returns an error the walk stops and returns it (the closure
  never returns \<^verbatim>\<open>fs.SkipDir\<close> or \<^verbatim>\<open>fs.SkipAll\<close> of its own). A tree is therefore the
  sequence of calls the walk makes while \<open>fn\<close> returns nil, together with what opening
  and reading a path gives.
\<close>

datatype FileMode = ModeRegular | ModeDir | ModeSymlink | ModeOther

datatype visit =
    Failed string error
  | Entry string FileMode

record FS =
  visits :: "visit list"
  Open :: "string \<Rightarrow> error + string"

fun WalkDir :: "visit list \<Rightarrow> ('s \<Rightarrow> visit \<Rightarrow> error + 's) \<Rightarrow> 's \<Rightarrow> error + 's" where
  "WalkDir [] fn s = Inr s"
| "WalkDir (v # vs) fn s =
     (case fn s v of
        Inl e \<Rightarrow> Inl e
      | Inr s' \<Rightarrow> WalkDir vs fn s')"

subsection \<open>The similarity scan and the configuration\<close>

text \<open>
  \<^verbatim>\<open>licensecheck.Scan\<close> is an external library: it maps the bytes of a file to a
  coverage percentage and the list of matches, of which the generator reads the
  identifier only. The percentage is a finite \<^verbatim>\<open>float64\<close> between 0 and 100, compared
  once with the constant 75; on finite values that comparison is the one of the reals.
  The table \<^verbatim>\<open>licenseFileNames\<close> of recognised file names is declared in a file that
  is not part of the sources at hand, so it is a parameter, as the scan is. The field
  \<^verbatim>\<open>Match\<close> of a coverage is written \<open>Matches\<close>, as the type of its elements has the
  name.
\<close>

record Match =
  ID :: string

record Coverage =
  Percent :: real
  Matches :: "Match list"

record detector =
  licenseFileNames :: "string \<rightharpoonup> bool"
  Scan :: "string \<Rightarrow> Coverage"

definition coverageThreshold :: int where
  "coverageThreshold = 75"

definition unknownLicenseType :: string where
  "unknownLicenseType = ''UNKNOWN''"

subsection \<open>The closure passed to the walk (lines 261--308)\<close>

text \<open>The state of the closure is the captured slice \<open>licenses\<close>.\<close>

definition walkFn :: "detector \<Rightarrow> (string \<Rightarrow> error + string) \<Rightarrow> string list \<Rightarrow> visit \<Rightarrow> error + string list" where
  "walkFn cfg opn licenses v =
     (case v of
        Failed path err \<Rightarrow> Inl err
      | Entry path d \<Rightarrow>
          if path = ''.git'' \<or> HasPrefix path ''.git/'' then Inr licenses
          else if d = ModeDir then Inr licenses
          else if d = ModeSymlink then Inr licenses
          else
            let filename = Base path in
            if licenseFileNames cfg filename = None then Inr licenses
            else
              let parts = Split (Dir path) [Separator] in
              if ''vendor'' \<in> set parts then Inr licenses
              else
                (case opn path of
                   Inl err \<Rightarrow> Inl err
                 | Inr buf \<Rightarrow>
                     let cov = Scan cfg buf;
                         licenses1 =
                           (if Percent cov < real_of_int coverageThreshold
                            then licenses @ [unknownLicenseType] else licenses)
                     in Inr (licenses1 @ map ID (Matches cov))))"

subsection \<open>Reducing the findings (lines 312--339)\<close>

text \<open>
  The loop that makes the findings unique keeps a map of the identifiers seen so far
  and appends an identifier the first time it meets it.
\<close>

fun uniqueLoop :: "(string \<rightharpoonup> bool) \<Rightarrow> string list \<Rightarrow> string list \<Rightarrow> string list" where
  "uniqueLoop m uniqueLicenses [] = uniqueLicenses"
| "uniqueLoop m uniqueLicenses (l # ls) =
     (if m l = None then uniqueLoop (m(l \<mapsto> True)) (uniqueLicenses @ [l]) ls
      else uniqueLoop m uniqueLicenses ls)"

text \<open>
  The loop for the concluded license stops at the first entry that is not
  \<^verbatim>\<open>UNKNOWN\<close>; the variable starts as the empty string.
\<close>

fun concludedLoop :: "string list \<Rightarrow> string" where
  "concludedLoop [] = []"
| "concludedLoop (l # ls) = (if l \<noteq> unknownLicenseType then l else concludedLoop ls)"

definition reduceLicenses :: "string list \<Rightarrow> string \<times> string" where
  "reduceLicenses licenses =
     (if length licenses = 0 then ([], [])
      else
        let uniqueLicenses = uniqueLoop Map.empty [] licenses;
            licensesDeclared = Join uniqueLicenses '' AND '';
            licenseConcluded = concludedLoop uniqueLicenses
        in (licensesDeclared,
            if licenseConcluded = [] then unknownLicenseType else licenseConcluded))"

text \<open>
  The walk and the reduction together: what \<^verbatim>\<open>getLicenseFromReader\<close> computes from a
  tree, before the deferred \<^verbatim>\<open>Close\<close>. An error of the walk gives two empty strings.
\<close>

definition detectLicenses :: "detector \<Rightarrow> FS \<Rightarrow> string \<times> string" where
  "detectLicenses cfg fsys =
     (case WalkDir (visits fsys) (walkFn cfg (Open fsys)) [] of
        Inl err \<Rightarrow> ([], [])
      | Inr licenses \<Rightarrow> reduceLicenses licenses)"

section \<open>The outside world\<close>

subsection \<open>URLs\<close>

text \<open>
  Go's \<^verbatim>\<open>url.URL\<close>. The generator reads \<open>Scheme\<close>, \<open>Host\<close>, \<open>Path\<close> and \<open>Fragment\<close>
  and writes \<open>Path\<close>; the other fields only travel through \<^verbatim>\<open>u.String()\<close>.
\<close>

record URL =
  Scheme :: string
  Opaque :: string
  User :: string
  Host :: string
  Path :: string
  RawPath :: string
  RawQuery :: string
  Fragment :: string
  RawFragment :: string

subsection \<open>Git working copies and HTTP responses\<close>

text \<open>
  Of a working copy opened with go-git the generator asks the URLs configured for a
  remote and the hash of \<^verbatim>\<open>HEAD\<close>.
\<close>

record Repository =
  Remote :: "string \<Rightarrow> error + string list"
  Head :: "error + string"

text \<open>
  A response body is read through \<^verbatim>\<open>gzip.NewReader\<close> and \<^verbatim>\<open>tar.NewReader\<close>. What
  the two decoders make of the bytes is theirs: the body is given by the reader (or
  error) of the first and by the sequence of results of \<^verbatim>\<open>tr.Next()\<close> of the second,
  the end of the list being \<^verbatim>\<open>io.EOF\<close>. An entry carries what copying its content
  gives.
\<close>

datatype gzipReader = GzipReader (closeErr: "error option")

datatype Typeflag = TypeReg | TypeDir | TypeOther

record Header =
  Typeflag :: Typeflag
  Name :: string

datatype tarItem =
    NextError error
  | Next Header "error + string"

record Body =
  NewReader :: "error + gzipReader"
  tarItems :: "tarItem list"

record Response =
  StatusCode :: int
  Body :: Body

subsection \<open>The external functions\<close>

text \<open>
  Everything the generator calls outside its own package and outside the file
  system: URL parsing and printing, go-git, the HTTP client, the license scanner with
  its table of file names, and the UUID and the clock that stamp a document.
\<close>

record externals =
  url_Parse :: "string \<Rightarrow> error + URL"
  url_String :: "URL \<Rightarrow> string"
  PlainOpen :: "string \<Rightarrow> error + Repository"
  http_Get :: "string \<Rightarrow> error + Response"
  det :: detector
  uuid_New :: string
  time_Now :: string

subsection \<open>The file system\<close>

text \<open>
  The file system is a table from cleaned paths to nodes. It has no permissions: an
  operation fails only for a path that is missing, present or of the wrong kind.
  \<^verbatim>\<open>os.MkdirTemp\<close> hands out the names of \<open>tempNames\<close>, which are taken to be fresh.
  \<open>effects\<close> records, in order, the calls that reach the network, git or the disk.
\<close>

datatype node = Directory | RegularFile string | SymbolicLink

datatype effect =
    GitOpen string
  | HttpGet string
  | MkdirTemp string
  | Mkdir string
  | Create string
  | RemoveAll string
  | Walk string

record world =
  files :: "(string \<times> node) list"
  tempNames :: "string list"
  effects :: "effect list"

definition emit :: "effect \<Rightarrow> world \<Rightarrow> world" where
  "emit e w = w\<lparr>effects := effects w @ [e]\<rparr>"

definition stat :: "world \<Rightarrow> string \<Rightarrow> node option" where
  "stat w p = map_of (files w) (Clean p)"

definition put :: "string \<Rightarrow> node \<Rightarrow> world \<Rightarrow> world" where
  "put p n w = w\<lparr>files := filter (\<lambda>(k, _). k \<noteq> p) (files w) @ [(p, n)]\<rparr>"

text \<open>The path of \<open>p\<close> relative to the directory \<open>d\<close>, when \<open>p\<close> lies strictly below it.\<close>

definition below :: "string \<Rightarrow> string \<Rightarrow> string option" where
  "below d p =
     (if d = ''.'' then
        (if p = ''.'' \<or> p = ''..'' \<or> HasPrefix p ''/'' \<or> HasPrefix p ''../'' then None
         else Some p)
      else if d = ''/'' then
        (if HasPrefix p ''/'' \<and> p \<noteq> ''/'' then Some (drop 1 p) else None)
      else if HasPrefix p (d @ ''/'') then Some (drop (length d + 1) p)
      else None)"

definition os_MkdirTemp :: "world \<Rightarrow> (error + string) \<times> world" where
  "os_MkdirTemp w =
     (case tempNames w of
        [] \<Rightarrow> (Inl (Error ''mkdirtemp: no temporary directory''), w)
      | t # ts \<Rightarrow>
          (Inr t, emit (MkdirTemp t) (put t Directory (w\<lparr>tempNames := ts\<rparr>))))"

definition os_Mkdir :: "string \<Rightarrow> world \<Rightarrow> error option \<times> world" where
  "os_Mkdir p w =
     (if stat w p \<noteq> None then (Some (Error (''mkdir '' @ p @ '': file exists'')), w)
      else if stat w (Dir p) \<noteq> Some Directory
        then (Some (Error (''mkdir '' @ p @ '': no such file or directory'')), w)
      else (None, emit (Mkdir p) (put (Clean p) Directory w)))"

definition os_Create :: "string \<Rightarrow> world \<Rightarrow> error option \<times> world" where
  "os_Create p w =
     (if stat w p = Some Directory then (Some (Error (''open '' @ p @ '': is a directory'')), w)
      else if stat w (Dir p) \<noteq> Some Directory
        then (Some (Error (''open '' @ p @ '': no such file or directory'')), w)
      else (None, emit (Create p) (put (Clean p) (RegularFile []) w)))"

definition os_RemoveAll :: "string \<Rightarrow> world \<Rightarrow> world" where
  "os_RemoveAll p w =
     emit (RemoveAll p)
       (w\<lparr>files := filter (\<lambda>(k, _). k \<noteq> Clean p \<and> below (Clean p) k = None) (files w)\<rparr>)"

text \<open>
  \<^verbatim>\<open>os.DirFS(dir)\<close> as \<^verbatim>\<open>fs.WalkDir\<close> and \<^verbatim>\<open>Open\<close> see it in a given world. The walk
  starts with \<^verbatim>\<open>Stat\<close> of \<^verbatim>\<open>dir/.\<close>: a root that is missing or is not a directory is
  reported to the closure as a failed call for \<^verbatim>\<open>.\<close>; otherwise the root is visited
  and then everything below it, ordered as the walk orders it, by the list of path
  elements. A symbolic link has no target here, so nothing lies below one.
\<close>

definition modeOf :: "node \<Rightarrow> FileMode" where
  "modeOf n = (case n of Directory \<Rightarrow> ModeDir | RegularFile _ \<Rightarrow> ModeRegular | SymbolicLink \<Rightarrow> ModeSymlink)"

definition entriesBelow :: "world \<Rightarrow> string \<Rightarrow> (string \<times> node) list" where
  "entriesBelow w d =
     sort_key (\<lambda>(rel, n). Split rel [Separator])
       (concat (map (\<lambda>(k, n). case below d k of None \<Rightarrow> [] | Some rel \<Rightarrow> [(rel, n)]) (files w)))"

definition DirFS :: "world \<Rightarrow> string \<Rightarrow> FS" where
  "DirFS w dir =
     \<lparr>visits =
        (case stat w dir of
           None \<Rightarrow> [Failed ''.'' (Error (''stat '' @ dir @ ''/.: no such file or directory''))]
         | Some Directory \<Rightarrow>
             Entry ''.'' ModeDir #
             map (\<lambda>(rel, n). Entry rel (modeOf n)) (entriesBelow w (Clean dir))
         | Some _ \<Rightarrow> [Failed ''.'' (Error (''stat '' @ dir @ ''/.: not a directory''))]),
      Open = (\<lambda>name.
        case stat w (dir @ ''/'' @ name) of
          Some (RegularFile content) \<Rightarrow> Inr content
        | Some Directory \<Rightarrow> Inl (Error (''read '' @ dir @ ''/'' @ name @ '': is a directory''))
        | _ \<Rightarrow> Inl (Error (''open '' @ dir @ ''/'' @ name @ '': no such file or directory'')))\<rparr>"

section \<open>The generator\<close>

subsection \<open>Repositories with their trees\<close>

text \<open>
  \<^verbatim>\<open>repoWithReader\<close> holds the parsed URL (a pointer in Go, so a write to it is seen by
  every later read), the directory \<^verbatim>\<open>os.DirFS\<close> was given, and the release closure.
  The closure of a remote repository captures the gzip reader, which is still nil
  when the fetch never reached the decompression, and the temporary directory.
\<close>

record closer =
  gz :: "gzipReader option"
  tmpDir :: string

record repoWithReader =
  url :: URL
  readerDir :: string
  close :: "closer option"

definition Close :: "repoWithReader \<Rightarrow> world \<Rightarrow> error option outcome \<times> world" where
  "Close r w =
     (case close r of
        None \<Rightarrow> (Return None, w)
      | Some c \<Rightarrow>
          (case gz c of
             None \<Rightarrow> (Panic ''invalid memory address or nil pointer dereference'', w)
           | Some g \<Rightarrow>
               (case closeErr g of
                  Some err \<Rightarrow> (Return (Some err), w)
                | None \<Rightarrow> (Return None, os_RemoveAll (tmpDir c) w))))"

subsection \<open>\<^verbatim>\<open>extractURLToPath\<close>\<close>

text \<open>The loop over the entries of the archive (lines 360--386).\<close>

fun untar :: "string \<Rightarrow> tarItem list \<Rightarrow> world \<Rightarrow> error option outcome \<times> world" where
  "untar path [] w = (Return None, w)"
| "untar path (NextError err # rest) w = (Return (Some err), w)"
| "untar path (Next header content # rest) w =
     (case Typeflag header of
        TypeDir \<Rightarrow>
          (case os_Mkdir (filepath_Join path (Name header)) w of
             (Some err, w') \<Rightarrow> (Exit (''extract: Mkdir() failed: '' @ message err), w')
           | (None, w') \<Rightarrow> untar path rest w')
      | TypeReg \<Rightarrow>
          (case os_Create (filepath_Join path (Name header)) w of
             (Some err, w') \<Rightarrow> (Exit (''extract: Create() failed: '' @ message err), w')
           | (None, w') \<Rightarrow>
               (case content of
                  Inl err \<Rightarrow> (Exit (''extract: Copy() failed: '' @ message err), w')
                | Inr bytes \<Rightarrow>
                    untar path rest (put (Clean (filepath_Join path (Name header))) (RegularFile bytes) w')))
      | TypeOther \<Rightarrow> untar path rest w)"

text \<open>
  The function returns its error and, through the variable the \<open>decompress\<close> closure
  of \<^verbatim>\<open>parse\<close> assigns, the gzip reader: \<open>None\<close> while the closure has not run or
  when \<^verbatim>\<open>gzip.NewReader\<close> failed.
\<close>

definition extractURLToPath ::
    "externals \<Rightarrow> string \<Rightarrow> string \<Rightarrow> world \<Rightarrow> (error option \<times> gzipReader option) outcome \<times> world" where
  "extractURLToPath ext u path w =
     (let w1 = emit (HttpGet u) w in
      case http_Get ext u of
        Inl err \<Rightarrow> (Return (Some err, None), w1)
      | Inr res \<Rightarrow>
          if StatusCode res \<noteq> 200 then (Return (None, None), w1)
          else
            (case NewReader (Body res) of
               Inl err \<Rightarrow> (Return (Some err, None), w1)
             | Inr g \<Rightarrow>
                 (case untar path (tarItems (Body res)) w1 of
                    (Return e, w2) \<Rightarrow> (Return (e, Some g), w2)
                  | (Exit m, w2) \<Rightarrow> (Exit m, w2)
                  | (Panic m, w2) \<Rightarrow> (Panic m, w2))))"

subsection \<open>\<^verbatim>\<open>parse\<close>\<close>

text \<open>
  The branch for a file path (lines 119--147) gives the string that is parsed as the
  URL, the directory to read and no closure.
\<close>

definition parseLocal ::
    "externals \<Rightarrow> string \<Rightarrow> world \<Rightarrow> (error + string \<times> string \<times> closer option) outcome \<times> world" where
  "parseLocal ext repoWithRef w =
     (let w1 = emit (GitOpen repoWithRef) w in
      case PlainOpen ext repoWithRef of
        Inl err \<Rightarrow>
          (Return (Inl (Error (''unable to open repo at '' @ repoWithRef @ '': '' @ message err))), w1)
      | Inr r \<Rightarrow>
          (case Remote r ''origin'' of
             Inl err \<Rightarrow>
               (Return (Inl (Error (''unable to get remote origin for repo at '' @ repoWithRef @
                   '': '' @ message err))), w1)
           | Inr URLs \<Rightarrow>
               if length URLs = 0
               then (Return (Inl (Error (''no remote origin for repo at '' @ repoWithRef))), w1)
               else
                 let repo = URLs ! 0;
                     repo = Replace repo ''git@github.com:'' ''https://github.com/'' 1
                 in (case Head r of
                       Inl err \<Rightarrow>
                         (Return (Inl (Error (''unable to get HEAD for repo at '' @ repoWithRef @
                             '': '' @ message err))), w1)
                     | Inr commit \<Rightarrow>
                         (Return (Inr (repo @ ''#'' @ commit, repoWithRef, None)), w1))))"

text \<open>The branch for a URL (lines 148--176): fetch and unpack it into a temporary directory.\<close>

definition parseRemote ::
    "externals \<Rightarrow> string \<Rightarrow> world \<Rightarrow> (error + string \<times> string \<times> closer option) outcome \<times> world" where
  "parseRemote ext repoWithRef w =
     (case os_MkdirTemp w of
        (Inl err, w1) \<Rightarrow> (Return (Inl err), w1)
      | (Inr tmp, w1) \<Rightarrow>
          (case extractURLToPath ext repoWithRef tmp w1 of
             (Return (Some err, g), w2) \<Rightarrow> (Return (Inl err), w2)
           | (Return (None, g), w2) \<Rightarrow>
               (Return (Inr (repoWithRef, tmp, Some \<lparr>gz = g, tmpDir = tmp\<rparr>)), w2)
           | (Exit m, w2) \<Rightarrow> (Exit m, w2)
           | (Panic m, w2) \<Rightarrow> (Panic m, w2)))"

definition parse :: "externals \<Rightarrow> string \<Rightarrow> world \<Rightarrow> (error + repoWithReader) outcome \<times> world" where
  "parse ext repoWithRef w =
     (case (if HasPrefix repoWithRef ''/'' \<or> HasPrefix repoWithRef ''.''
            then parseLocal ext repoWithRef w
            else parseRemote ext repoWithRef w) of
        (Return (Inl err), w') \<Rightarrow> (Return (Inl err), w')
      | (Exit m, w') \<Rightarrow> (Exit m, w')
      | (Panic m, w') \<Rightarrow> (Panic m, w')
      | (Return (Inr (repo, dir, closer)), w') \<Rightarrow>
          (case url_Parse ext repo of
             Inl err \<Rightarrow>
               (Return (Inl (Error (''unable to parse url '' @ repoWithRef @ '': '' @ message err))), w')
           | Inr parsed \<Rightarrow>
               if Scheme parsed = [] \<or> Host parsed = [] \<or> Path parsed = []
               then (Return (Inl (Error (''url '' @ repoWithRef @ '' is not valid''))), w')
               else (Return (Inr \<lparr>url = parsed, readerDir = dir, close = closer\<rparr>), w')))"

subsection \<open>\<^verbatim>\<open>getLicenseFromReader\<close>\<close>

text \<open>
  The argument is a pointer and may be nil. The deferred \<^verbatim>\<open>Close\<close> runs after the
  result is computed; its error is dropped, its panic is not.
\<close>

definition getLicenseFromReader ::
    "externals \<Rightarrow> repoWithReader option \<Rightarrow> world \<Rightarrow> (string \<times> string) outcome \<times> world" where
  "getLicenseFromReader ext fsys w =
     (case fsys of
        None \<Rightarrow> (Return ([], []), w)
      | Some r \<Rightarrow>
          let result = detectLicenses (det ext) (DirFS w (readerDir r)) in
          (case Close r (emit (Walk (readerDir r)) w) of
             (Return _, w') \<Rightarrow> (Return result, w')
           | (Exit m, w') \<Rightarrow> (Exit m, w')
           | (Panic m, w') \<Rightarrow> (Panic m, w')))"

subsection \<open>\<^verbatim>\<open>githubUrlToDownload\<close> and \<^verbatim>\<open>buildSbom\<close>\<close>

text \<open>
  \<^verbatim>\<open>githubUrlToDownload\<close> writes the trimmed path back through the pointer it is given:
  the URL after the call is part of the result.
\<close>

definition githubUrlToDownload :: "URL \<Rightarrow> string \<times> URL" where
  "githubUrlToDownload u =
     (let u' = u\<lparr>Path := TrimSuffix (Path u) ''.git''\<rparr>
      in (Scheme u' @ ''://'' @ Host u' @ Path u' @ ''/archive/'' @ Fragment u' @ ''.tar.gz'', u'))"

record PackageExternalReference =
  Category :: string
  RefType :: string
  Locator :: string

record Package =
  PackageName :: string
  PackageSPDXIdentifier :: string
  PackageVersion :: string
  PackageDownloadLocation :: string
  PackageLicenseConcluded :: string
  PackageLicenseDeclared :: string
  PackageExternalReferences :: "PackageExternalReference list"

record Creator =
  Creator :: string
  CreatorType :: string

record CreationInfo =
  Created :: string
  Creators :: "Creator list"

record Document =
  SPDXVersion :: string
  DataLicense :: string
  SPDXIdentifier :: string
  DocumentName :: string
  DocumentNamespace :: string
  CreationInfo :: CreationInfo
  Packages :: "Package list"

text \<open>
  The body of the loop over the repositories (lines 198--233). The identifier is
  \<^verbatim>\<open>MakeDocElementID("Package", name).ElementRefID\<close>, which is \<open>name\<close>. The repository
  comes back with the URL as the body leaves it.
\<close>

definition buildPackage ::
    "externals \<Rightarrow> repoWithReader \<Rightarrow> world \<Rightarrow> (Package \<times> repoWithReader) outcome \<times> world" where
  "buildPackage ext r w =
     (let (downloadURL, u) = githubUrlToDownload (url r);
          r = r\<lparr>url := u\<rparr>;
          name = Base (Path u);
          pkg = \<lparr>PackageName = name,
                 PackageSPDXIdentifier = name,
                 PackageVersion = [],
                 PackageDownloadLocation = downloadURL,
                 PackageLicenseConcluded = ''NOASSERTION'',
                 PackageLicenseDeclared = ''NONE'',
                 PackageExternalReferences =
                   [\<lparr>Category = ''PACKAGE-MANAGER'', RefType = ''purl'',
                     Locator = ''pkg:generic/git?download_url='' @ url_String ext u\<rparr>]\<rparr>;
          version = Fragment u;
          pkg = (if version \<noteq> [] then pkg\<lparr>PackageVersion := version\<rparr> else pkg)
      in case getLicenseFromReader ext (Some r) w of
           (Exit m, w') \<Rightarrow> (Exit m, w')
         | (Panic m, w') \<Rightarrow> (Panic m, w')
         | (Return (licenseDeclared, licenseConcluded), w') \<Rightarrow>
             let pkg = (if licenseDeclared \<noteq> []
                        then pkg\<lparr>PackageLicenseDeclared := licenseDeclared\<rparr> else pkg);
                 pkg = (if licenseConcluded \<noteq> []
                        then pkg\<lparr>PackageLicenseConcluded := licenseConcluded\<rparr> else pkg);
                 pkg = (if (Scheme u = ''git'' \<or> HasSuffix name ''.git'') \<and> Fragment u \<noteq> []
                        then pkg\<lparr>PackageVersion := Fragment u\<rparr> else pkg)
             in (Return (pkg, r), w'))"

fun buildPackages ::
    "externals \<Rightarrow> repoWithReader list \<Rightarrow> Package list \<Rightarrow> world \<Rightarrow> Package list outcome \<times> world" where
  "buildPackages ext [] packages w = (Return packages, w)"
| "buildPackages ext (r # repos) packages w =
     (case buildPackage ext r w of
        (Return (pkg, r'), w') \<Rightarrow> buildPackages ext repos (packages @ [pkg]) w'
      | (Exit m, w') \<Rightarrow> (Exit m, w')
      | (Panic m, w') \<Rightarrow> (Panic m, w'))"

definition buildSbom ::
    "externals \<Rightarrow> repoWithReader list \<Rightarrow> string \<Rightarrow> string \<Rightarrow> world \<Rightarrow> (error + Document) outcome \<times> world" where
  "buildSbom ext repos namespace creator w =
     (case buildPackages ext repos [] w of
        (Exit m, w') \<Rightarrow> (Exit m, w')
      | (Panic m, w') \<Rightarrow> (Panic m, w')
      | (Return packages, w') \<Rightarrow>
          (Return (Inr
             \<lparr>SPDXVersion = ''SPDX-2.3'',
              DataLicense = ''CC0-1.0'',
              SPDXIdentifier = ''DOCUMENT'',
              DocumentName = ''github-repo'',
              DocumentNamespace = namespace @ ''-'' @ uuid_New ext,
              CreationInfo =
                \<lparr>Created = time_Now ext,
                 Creators = [\<lparr>Creator = creator, CreatorType = ''Tool''\<rparr>]\<rparr>,
              Packages = packages\<rparr>), w'))"

subsection \<open>The \<^verbatim>\<open>generate\<close> command\<close>

definition creator :: string where
  "creator = ''https://github.com/lf-edge/eve/tools/github-sbom-generator''"

definition defaultNamespace :: string where
  "defaultNamespace = ''https://github.com/lf-edge/eve/spdx''"

text \<open>
  The loop over the arguments (lines 66--73): an error of \<^verbatim>\<open>parse\<close> ends the process
  through \<^verbatim>\<open>log.Fatalf\<close>.
\<close>

fun parseArgs ::
    "externals \<Rightarrow> string list \<Rightarrow> repoWithReader list \<Rightarrow> world \<Rightarrow> repoWithReader list outcome \<times> world" where
  "parseArgs ext [] allRepos w = (Return allRepos, w)"
| "parseArgs ext (repo # args) allRepos w =
     (case parse ext repo w of
        (Return (Inl err), w') \<Rightarrow>
          (Exit (''Error generating '' @ repo @ '': '' @ message err), w')
      | (Return (Inr r), w') \<Rightarrow> parseArgs ext args (allRepos @ [r]) w'
      | (Exit m, w') \<Rightarrow> (Exit m, w')
      | (Panic m, w') \<Rightarrow> (Panic m, w'))"

text \<open>
  What \<^verbatim>\<open>RunE\<close> hands to a writer on standard output: the document and the encoding.
  The writers are external; their own errors are not modelled.
\<close>

datatype written = TagValue Document | Json Document

definition RunE ::
    "externals \<Rightarrow> string \<Rightarrow> string \<Rightarrow> string list \<Rightarrow> world \<Rightarrow> (error + written) outcome \<times> world" where
  "RunE ext outputFormat namespace args w =
     (case parseArgs ext args [] w of
        (Exit m, w') \<Rightarrow> (Exit m, w')
      | (Panic m, w') \<Rightarrow> (Panic m, w')
      | (Return allRepos, w') \<Rightarrow>
          if outputFormat = ''spdx'' then
            (case buildSbom ext allRepos namespace creator w' of
               (Return (Inl err), w'') \<Rightarrow> (Return (Inl err), w'')
             | (Return (Inr sbom), w'') \<Rightarrow> (Return (Inr (TagValue sbom)), w'')
             | (Exit m, w'') \<Rightarrow> (Exit m, w'')
             | (Panic m, w'') \<Rightarrow> (Panic m, w''))
          else if outputFormat = ''spdx-json'' then
            (case buildSbom ext allRepos namespace creator w' of
               (Return (Inl err), w'') \<Rightarrow> (Return (Inl err), w'')
             | (Return (Inr sbom), w'') \<Rightarrow> (Return (Inr (Json sbom)), w'')
             | (Exit m, w'') \<Rightarrow> (Exit m, w'')
             | (Panic m, w'') \<Rightarrow> (Panic m, w''))
          else (Return (Inl (Error (''unknown output format '' @ outputFormat))), w'))"

text \<open>The document a run has written.\<close>

primrec document :: "written \<Rightarrow> Document" where
  "document (TagValue d) = d"
| "document (Json d) = d"

section \<open>Paths the walk produces\<close>

text \<open>
  The walk builds every path below the root by joining directory entry names with
  \<^verbatim>\<open>/\<close>. A name is never empty, never \<^verbatim>\<open>.\<close> or \<^verbatim>\<open>..\<close>, and holds no separator.
\<close>

definition validName :: "string \<Rightarrow> bool" where
  "validName s = (s \<noteq> [] \<and> Separator \<notin> set s \<and> s \<noteq> ''.'' \<and> s \<noteq> ''..'')"

section \<open>The specification's wording of the reduction\<close>

text \<open>
  These definitions follow the words of the specification, not the code: the findings
  ``deduplicated preserving first-seen order'', joined with \<^verbatim>\<open> AND \<close>, and ``the first
  deduplicated entry that is not \<^verbatim>\<open>UNKNOWN\<close>'', with \<^verbatim>\<open>UNKNOWN\<close> when there is none.
\<close>

primrec firstSeen :: "string list \<Rightarrow> string list" where
  "firstSeen [] = []"
| "firstSeen (x # xs) = x # filter (\<lambda>y. y \<noteq> x) (firstSeen xs)"

definition declaredSpec :: "string list \<Rightarrow> string" where
  "declaredSpec findings = Join (firstSeen findings) '' AND ''"

definition concludedSpec :: "string list \<Rightarrow> string" where
  "concludedSpec findings =
     (case List.find (\<lambda>l. l \<noteq> ''UNKNOWN'') (firstSeen findings) of
        Some l \<Rightarrow> l
      | None \<Rightarrow> ''UNKNOWN'')"

section \<open>The claim's wording of the package name\<close>

text \<open>
  Following the words of the claim about the package name: ``the final path segment
  without the \<^verbatim>\<open>.git\<close> suffix''.
\<close>

definition nameSpec :: "string \<Rightarrow> string" where
  "nameSpec path = TrimSuffix (last (Split path [Separator])) ''.git''"

section \<open>What parsing leaves behind\<close>



section \<open>Example inputs\<close>

subsection \<open>A detector and two trees\<close>

text \<open>
  A detector that recognises two file names and whose scan knows three texts: two
  that match a license fully and one that matches the MIT license in part.
\<close>

definition exampleDetector :: detector where
  "exampleDetector =
     \<lparr>licenseFileNames = [''LICENSE'' \<mapsto> True, ''COPYING'' \<mapsto> True],
      Scan = (\<lambda>buf.
        if buf = ''mit'' then \<lparr>Percent = 100, Matches = [\<lparr>ID = ''MIT''\<rparr>]\<rparr>
        else if buf = ''apache'' then \<lparr>Percent = 100, Matches = [\<lparr>ID = ''Apache-2.0''\<rparr>]\<rparr>
        else if buf = ''partly mit'' then \<lparr>Percent = 40, Matches = [\<lparr>ID = ''MIT''\<rparr>]\<rparr>
        else \<lparr>Percent = 0, Matches = []\<rparr>)\<rparr>"

text \<open>A tree with three license files, and a tree with none.\<close>

definition exampleTree :: FS where
  "exampleTree =
     \<lparr>visits =
        [Entry ''.'' ModeDir,
         Entry ''LICENSE'' ModeRegular,
         Entry ''README.md'' ModeRegular,
         Entry ''sub'' ModeDir,
         Entry ''sub/COPYING'' ModeRegular,
         Entry ''sub/LICENSE'' ModeRegular],
      Open = (\<lambda>name.
        if name = ''LICENSE'' then Inr ''mit''
        else if name = ''README.md'' then Inr ''read me''
        else if name = ''sub/COPYING'' then Inr ''apache''
        else if name = ''sub/LICENSE'' then Inr ''mit''
        else Inl (Error (''open '' @ name @ '': no such file or directory'')))\<rparr>"

definition emptyTree :: FS where
  "emptyTree =
     \<lparr>visits = [Entry ''.'' ModeDir, Entry ''README.md'' ModeRegular],
      Open = (\<lambda>name.
        if name = ''README.md'' then Inr ''read me''
        else Inl (Error (''open '' @ name @ '': no such file or directory'')))\<rparr>"

subsection \<open>URLs, an archive and the external functions\<close>

text \<open>
  The URL \<^verbatim>\<open>https://github.com/foo/bar.git#abc123\<close> as \<^verbatim>\<open>url.Parse\<close> returns it, the
  same URL with only a \<^verbatim>\<open>.git\<close> as its last path element, and the URL
  \<^verbatim>\<open>https://github.com/foo/bar#v1.2.3\<close>.
\<close>

definition exampleURL :: URL where
  "exampleURL =
     \<lparr>Scheme = ''https'', Opaque = [], User = [], Host = ''github.com'',
      Path = ''/foo/bar.git'', RawPath = [], RawQuery = [],
      Fragment = ''abc123'', RawFragment = []\<rparr>"

definition dotGitURL :: URL where
  "dotGitURL = exampleURL\<lparr>Path := ''/foo/.git''\<rparr>"

definition taggedURL :: URL where
  "taggedURL = exampleURL\<lparr>Path := ''/foo/bar'', Fragment := ''v1.2.3''\<rparr>"

text \<open>What \<^verbatim>\<open>u.String()\<close> prints for a URL of scheme, host, path and fragment.\<close>

definition printURL :: "URL \<Rightarrow> string" where
  "printURL u =
     Scheme u @ ''://'' @ Host u @ Path u @ (if Fragment u = [] then [] else ''#'' @ Fragment u)"

text \<open>
  An archive with one directory and a license file in it, and a response that
  carries it.
\<close>

definition exampleArchive :: Response where
  "exampleArchive =
     \<lparr>StatusCode = 200,
      Body = \<lparr>NewReader = Inr (GzipReader None),
              tarItems =
                [Next \<lparr>Typeflag = TypeDir, Name = ''bar-main/''\<rparr> (Inr []),
                 Next \<lparr>Typeflag = TypeReg, Name = ''bar-main/LICENSE''\<rparr> (Inr ''mit'')]\<rparr>\<rparr>"

text \<open>The working copies that go-git opens at \<^verbatim>\<open>./repo\<close> and at \<^verbatim>\<open>./lab\<close>.\<close>

definition exampleCopy :: Repository where
  "exampleCopy =
     \<lparr>Remote = (\<lambda>n. if n = ''origin'' then Inr [''git@github.com:foo/bar.git'']
                       else Inl (Error ''remote not found'')),
      Head = Inr ''abc123''\<rparr>"

definition labCopy :: Repository where
  "labCopy =
     \<lparr>Remote = (\<lambda>n. if n = ''origin'' then Inr [''git@gitlab.com:foo/bar.git'']
                       else Inl (Error ''remote not found'')),
      Head = Inr ''abc123''\<rparr>"

text \<open>
  The external functions of the examples. There are two working copies: \<^verbatim>\<open>./repo\<close>
  with an origin on github.com and \<^verbatim>\<open>./lab\<close> with an origin on gitlab.com, both
  given in the SSH form.
\<close>

definition exampleExternals :: externals where
  "exampleExternals =
     \<lparr>url_Parse = (\<lambda>s.
        if s = ''https://github.com/foo/bar.git#abc123'' then Inr exampleURL
        else if s = ''https://github.com/foo/.git#abc123'' then Inr dotGitURL
        else if s = ''https://github.com/foo/bar#v1.2.3'' then Inr taggedURL
        else Inl (Error ''first path segment in URL cannot contain colon'')),
      url_String = printURL,
      PlainOpen = (\<lambda>p.
        if p = ''./repo'' then Inr exampleCopy
        else if p = ''./lab'' then Inr labCopy
        else Inl (Error ''repository does not exist'')),
      http_Get = (\<lambda>u.
        if u = ''https://github.com/foo/bar.git#abc123'' \<or> u = ''https://github.com/foo/bar#v1.2.3''
          \<or> u = ''https://github.com/foo/.git#abc123''
        then Inr exampleArchive
        else Inl (Error ''no such host'')),
      det = exampleDetector,
      uuid_New = ''8d2c0d4e-6f49-4d7b-9a52-0f3a1c5b7e11'',
      time_Now = ''2023-11-01T12:00:00Z''\<rparr>"

subsection \<open>Disks and repositories\<close>

text \<open>
  A disk with the two working copies (the first with a license file of its own and a
  vendored one, the second with none) and one temporary name to hand out.
\<close>

definition exampleWorld :: world where
  "exampleWorld =
     \<lparr>files =
        [(''/tmp'', Directory),
         (''repo'', Directory),
         (''repo/LICENSE'', RegularFile ''mit''),
         (''repo/vendor'', Directory),
         (''repo/vendor/LICENSE'', RegularFile ''apache''),
         (''lab'', Directory),
         (''lab/README.md'', RegularFile ''read me'')],
      tempNames = [''/tmp/sbom1''],
      effects = []\<rparr>"

definition exampleRepo :: repoWithReader where
  "exampleRepo = \<lparr>url = exampleURL, readerDir = ''./repo'', close = None\<rparr>"

definition bareRepo :: repoWithReader where
  "bareRepo = \<lparr>url = taggedURL, readerDir = ''./lab'', close = None\<rparr>"

text \<open>The same working copy under the URL whose last path element is \<^verbatim>\<open>.git\<close> alone.\<close>

definition dotGitRepo :: repoWithReader where
  "dotGitRepo = \<lparr>url = dotGitURL, readerDir = ''./repo'', close = None\<rparr>"

text \<open>
  The repository \<^verbatim>\<open>parse\<close> returns for \<^verbatim>\<open>https://github.com/foo/bar.git#abc123\<close>, the
  disk it leaves, the document built from it and the disk after the tree is released.
\<close>

definition fetchedRepo :: repoWithReader where
  "fetchedRepo =
     \<lparr>url = exampleURL, readerDir = ''/tmp/sbom1'',
      close = Some \<lparr>gz = Some (GzipReader None), tmpDir = ''/tmp/sbom1''\<rparr>\<rparr>"

definition fetchedWorld :: world where
  "fetchedWorld =
     \<lparr>files =
        [(''/tmp'', Directory),
         (''repo'', Directory),
         (''repo/LICENSE'', RegularFile ''mit''),
         (''repo/vendor'', Directory),
         (''repo/vendor/LICENSE'', RegularFile ''apache''),
         (''lab'', Directory),
         (''lab/README.md'', RegularFile ''read me''),
         (''/tmp/sbom1'', Directory),
         (''/tmp/sbom1/bar-main'', Directory),
         (''/tmp/sbom1/bar-main/LICENSE'', RegularFile ''mit'')],
      tempNames = [],
      effects =
        [MkdirTemp ''/tmp/sbom1'',
         HttpGet ''https://github.com/foo/bar.git#abc123'',
         Mkdir ''/tmp/sbom1/bar-main'',
         Create ''/tmp/sbom1/bar-main/LICENSE'']\<rparr>"

definition releasedWorld :: world where
  "releasedWorld =
     \<lparr>files =
        [(''/tmp'', Directory),
         (''repo'', Directory),
         (''repo/LICENSE'', RegularFile ''mit''),
         (''repo/vendor'', Directory),
         (''repo/vendor/LICENSE'', RegularFile ''apache''),
         (''lab'', Directory),
         (''lab/README.md'', RegularFile ''read me'')],
      tempNames = [],
      effects =
        [MkdirTemp ''/tmp/sbom1'',
         HttpGet ''https://github.com/foo/bar.git#abc123'',
         Mkdir ''/tmp/sbom1/bar-main'',
         Create ''/tmp/sbom1/bar-main/LICENSE'',
         Walk ''/tmp/sbom1'',
         RemoveAll ''/tmp/sbom1'']\<rparr>"

definition examplePackage :: Package where
  "examplePackage =
     \<lparr>PackageName = ''bar'',
      PackageSPDXIdentifier = ''bar'',
      PackageVersion = ''abc123'',
      PackageDownloadLocation = ''https://github.com/foo/bar/archive/abc123.tar.gz'',
      PackageLicenseConcluded = ''MIT'',
      PackageLicenseDeclared = ''MIT'',
      PackageExternalReferences =
        [\<lparr>Category = ''PACKAGE-MANAGER'', RefType = ''purl'',
          Locator = ''pkg:generic/git?download_url=https://github.com/foo/bar#abc123''\<rparr>]\<rparr>"

definition exampleDocument :: Document where
  "exampleDocument =
     \<lparr>SPDXVersion = ''SPDX-2.3'',
      DataLicense = ''CC0-1.0'',
      SPDXIdentifier = ''DOCUMENT'',
      DocumentName = ''github-repo'',
      DocumentNamespace = ''https://github.com/lf-edge/eve/spdx-8d2c0d4e-6f49-4d7b-9a52-0f3a1c5b7e11'',
      CreationInfo =
        \<lparr>Created = ''2023-11-01T12:00:00Z'',
         Creators =
           [\<lparr>Creator = ''https://github.com/lf-edge/eve/tools/github-sbom-generator'',
             CreatorType = ''Tool''\<rparr>]\<rparr>,
      Packages = [examplePackage]\<rparr>"

subsection \<open>Further packages\<close>

text \<open>
  The package of the working copy without license files, and the package for the URL
  whose last path element is \<^verbatim>\<open>.git\<close> alone.
\<close>

definition barePackage :: Package where
  "barePackage =
     \<lparr>PackageName = ''bar'',
      PackageSPDXIdentifier = ''bar'',
      PackageVersion = ''v1.2.3'',
      PackageDownloadLocation = ''https://github.com/foo/bar/archive/v1.2.3.tar.gz'',
      PackageLicenseConcluded = ''NOASSERTION'',
      PackageLicenseDeclared = ''NONE'',
      PackageExternalReferences =
        [\<lparr>Category = ''PACKAGE-MANAGER'', RefType = ''purl'',
          Locator = ''pkg:generic/git?download_url=https://github.com/foo/bar#v1.2.3''\<rparr>]\<rparr>"

definition dotGitPackage :: Package where
  "dotGitPackage =
     \<lparr>PackageName = ''foo'',
      PackageSPDXIdentifier = ''foo'',
      PackageVersion = ''abc123'',
      PackageDownloadLocation = ''https://github.com/foo//archive/abc123.tar.gz'',
      PackageLicenseConcluded = ''MIT'',
      PackageLicenseDeclared = ''MIT'',
      PackageExternalReferences =
        [\<lparr>Category = ''PACKAGE-MANAGER'', RefType = ''purl'',
          Locator = ''pkg:generic/git?download_url=https://github.com/foo/#abc123''\<rparr>]\<rparr>"

section \<open>The reduction of the findings\<close>

lemma firstSeen_filter: "firstSeen (filter P xs) = filter P (firstSeen xs)"
proof (induction xs)
  case Nil
  show ?case by simp
next
  case (Cons x xs)
  show ?case
  proof (cases "P x")
    case True
    then show ?thesis using Cons by (simp add: conj_commute)
  next
    case False
    then have "filter P (filter (\<lambda>y. y \<noteq> x) (firstSeen xs)) = filter P (firstSeen xs)"
      by (auto intro: filter_cong)
    with False Cons show ?thesis by simp
  qed
qed

lemma uniqueLoop_firstSeen:
  "uniqueLoop m u ls = u @ firstSeen (filter (\<lambda>l. m l = None) ls)"
proof (induction ls arbitrary: m u)
  case Nil
  show ?case by simp
next
  case (Cons l ls)
  show ?case
  proof (cases "m l")
    case None
    have eq: "filter (\<lambda>x. (m(l \<mapsto> True)) x = None) ls
        = filter (\<lambda>y. y \<noteq> l) (filter (\<lambda>x. m x = None) ls)"
      by (induction ls) auto
    have "uniqueLoop m u (l # ls) = uniqueLoop (m(l \<mapsto> True)) (u @ [l]) ls"
      using None by simp
    also have "\<dots> = (u @ [l]) @ firstSeen (filter (\<lambda>x. (m(l \<mapsto> True)) x = None) ls)"
      by (rule Cons.IH)
    also have "\<dots> = u @ l # filter (\<lambda>y. y \<noteq> l) (firstSeen (filter (\<lambda>x. m x = None) ls))"
      unfolding eq firstSeen_filter by simp
    also have "\<dots> = u @ firstSeen (filter (\<lambda>x. m x = None) (l # ls))"
      using None by simp
    finally show ?thesis .
  next
    case (Some b)
    with Cons show ?thesis by simp
  qed
qed

lemma uniqueLoop_empty: "uniqueLoop Map.empty [] ls = firstSeen ls"
  by (simp add: uniqueLoop_firstSeen)

lemma concludedLoop_find:
  "concludedLoop xs = (case List.find (\<lambda>l. l \<noteq> ''UNKNOWN'') xs of Some l \<Rightarrow> l | None \<Rightarrow> [])"
  by (induction xs) (auto simp: unknownLicenseType_def)

lemma firstSeen_set: "set (firstSeen xs) = set xs"
  by (induction xs) auto

lemma firstSeen_distinct: "distinct (firstSeen xs)"
  by (induction xs) auto

lemma reduceLicenses_spec:
  "licenses \<noteq> [] \<Longrightarrow>
   reduceLicenses licenses =
     (declaredSpec licenses,
      if concludedSpec licenses = [] then ''UNKNOWN'' else concludedSpec licenses)"
  by (auto simp: reduceLicenses_def uniqueLoop_empty concludedLoop_find declaredSpec_def
        concludedSpec_def Let_def unknownLicenseType_def split: option.splits)

lemmas eval_paths =
  Base_def Dir_def Clean_def Split_def Separator_def HasPrefix_def HasSuffix_def TrimSuffix_def

lemmas eval_walk =
  walkFn_def coverageThreshold_def unknownLicenseType_def eval_paths

text \<open>
  C5 (as amended). For the findings the walk produces: when there are none, both
  strings are empty; otherwise the declared expression is the findings deduplicated in
  first-seen order and joined with \<^verbatim>\<open> AND \<close>, and the concluded license is the first
  deduplicated entry that is not \<^verbatim>\<open>UNKNOWN\<close>, or \<^verbatim>\<open>UNKNOWN\<close> when every entry is
  \<^verbatim>\<open>UNKNOWN\<close> or that first entry is the empty identifier. The findings MIT,
  Apache-2.0, MIT give declared \<^verbatim>\<open>MIT AND Apache-2.0\<close> and concluded \<^verbatim>\<open>MIT\<close>.
\<close>

theorem findings_reduced:
  assumes "WalkDir (visits fsys) (walkFn cfg (Open fsys)) [] = Inr licenses"
  shows "(licenses = [] \<longrightarrow> detectLicenses cfg fsys = ([], [])) \<and>
         (licenses \<noteq> [] \<longrightarrow>
            detectLicenses cfg fsys =
              (declaredSpec licenses,
               if concludedSpec licenses = [] then ''UNKNOWN'' else concludedSpec licenses)) \<and>
         (licenses = [''MIT'', ''Apache-2.0'', ''MIT''] \<longrightarrow>
            detectLicenses cfg fsys = (''MIT AND Apache-2.0'', ''MIT''))"
proof -
  have d: "detectLicenses cfg fsys = reduceLicenses licenses"
    using assms by (simp add: detectLicenses_def)
  have "reduceLicenses [] = ([], [])"
    by (simp add: reduceLicenses_def)
  moreover have "reduceLicenses [''MIT'', ''Apache-2.0'', ''MIT''] = (''MIT AND Apache-2.0'', ''MIT'')"
    by (simp add: reduceLicenses_def unknownLicenseType_def)
  ultimately show ?thesis
    using d reduceLicenses_spec [of licenses] by auto
qed

theorem findings_reduced_witness:
  "WalkDir (visits exampleTree) (walkFn exampleDetector (Open exampleTree)) []
     = Inr [''MIT'', ''Apache-2.0'', ''MIT''] \<and>
   detectLicenses exampleDetector exampleTree = (''MIT AND Apache-2.0'', ''MIT'') \<and>
   declaredSpec [''MIT'', ''Apache-2.0'', ''MIT''] = ''MIT AND Apache-2.0'' \<and>
   concludedSpec [''MIT'', ''Apache-2.0'', ''MIT''] = ''MIT'' \<and>
   WalkDir (visits emptyTree) (walkFn exampleDetector (Open emptyTree)) [] = Inr [] \<and>
   detectLicenses exampleDetector emptyTree = ([], [])"
proof -
  have h: "WalkDir (visits exampleTree) (walkFn exampleDetector (Open exampleTree)) []
      = Inr [''MIT'', ''Apache-2.0'', ''MIT'']"
    by (simp add: exampleTree_def exampleDetector_def eval_walk)
  have s: "declaredSpec [''MIT'', ''Apache-2.0'', ''MIT''] = ''MIT AND Apache-2.0''"
          "concludedSpec [''MIT'', ''Apache-2.0'', ''MIT''] = ''MIT''"
    by (simp_all add: declaredSpec_def concludedSpec_def)
  have e: "WalkDir (visits emptyTree) (walkFn exampleDetector (Open emptyTree)) [] = Inr []"
    by (simp add: emptyTree_def exampleDetector_def eval_walk)
  from findings_reduced [OF h] s
  have 1: "detectLicenses exampleDetector exampleTree = (''MIT AND Apache-2.0'', ''MIT'')"
    by simp
  from findings_reduced [OF e]
  have 2: "detectLicenses exampleDetector emptyTree = ([], [])"
    by simp
  from h s e 1 2 show ?thesis by simp
qed

text \<open>
  The claim as stated fails on a tree without license files: there are no findings,
  the claimed concluded license is \<^verbatim>\<open>UNKNOWN\<close>, the code returns the empty string.
\<close>

theorem no_findings_counterexample:
  "WalkDir (visits emptyTree) (walkFn exampleDetector (Open emptyTree)) [] = Inr [] \<and>
   concludedSpec [] = ''UNKNOWN'' \<and>
   snd (detectLicenses exampleDetector emptyTree) = [] \<and>
   snd (detectLicenses exampleDetector emptyTree) \<noteq> concludedSpec []"
  by (simp add: detectLicenses_def reduceLicenses_def concludedSpec_def emptyTree_def
        exampleDetector_def eval_walk)

section \<open>Splitting and joining paths\<close>

lemma HasPrefix_single: "HasPrefix (x # xs) [c] = (x = c)"
  by (simp add: HasPrefix_def)

lemma Split_from_none: "c \<notin> set s \<Longrightarrow> Split_from [c] cur s = [cur @ s]"
  by (induction s arbitrary: cur) (auto simp: HasPrefix_single)

lemma Split_from_first:
  "c \<notin> set s \<Longrightarrow> Split_from [c] cur (s @ c # t) = (cur @ s) # Split_from [c] [] t"
  by (induction s arbitrary: cur) (auto simp: HasPrefix_single)

lemma Split_from_Join_more:
  "segs \<noteq> [] \<Longrightarrow> \<forall>s \<in> set segs. c \<notin> set s \<Longrightarrow>
   Split_from [c] [] (Join segs [c] @ c # t) = segs @ Split_from [c] [] t"
proof (induction segs "[c]" rule: Join.induct)
  case 1
  then show ?case by simp
next
  case (2 e)
  then show ?case using Split_from_first [of c e "[]" t] by simp
next
  case (3 e e' es)
  then show ?case using Split_from_first [of c e "[]" "Join (e' # es) [c] @ c # t"] by simp
qed

lemma Split_from_Join:
  "segs \<noteq> [] \<Longrightarrow> \<forall>s \<in> set segs. c \<notin> set s \<Longrightarrow> Split_from [c] [] (Join segs [c]) = segs"
proof (induction segs "[c]" rule: Join.induct)
  case 1
  then show ?case by simp
next
  case (2 e)
  then show ?case using Split_from_none [of c e "[]"] by simp
next
  case (3 e e' es)
  then show ?case using Split_from_first [of c e "[]" "Join (e' # es) [c]"] by simp
qed

lemma Join_snoc: "dirs \<noteq> [] \<Longrightarrow> Join (dirs @ [name]) sep = Join dirs sep @ sep @ name"
  by (induction dirs sep rule: Join.induct) auto

lemma Join_nonempty: "segs \<noteq> [] \<Longrightarrow> hd segs \<noteq> [] \<Longrightarrow> Join segs sep \<noteq> [] \<and> hd (Join segs sep) = hd (hd segs)"
  by (induction segs sep rule: Join.induct) auto

lemma Clean_elems_valid:
  "\<forall>s \<in> set segs. validName s \<Longrightarrow>
   Clean_elems rooted st (segs @ rest) = Clean_elems rooted (rev segs @ st) rest"
  by (induction segs arbitrary: st) (auto simp: validName_def)

lemma Clean_dir_slash:
  assumes "dirs \<noteq> []" "\<forall>s \<in> set dirs. validName s"
  shows "Clean (Join dirs [Separator] @ [Separator]) = Join dirs [Separator]"
proof -
  have nosep: "\<forall>s \<in> set dirs. Separator \<notin> set s"
    using assms(2) by (simp add: validName_def)
  have hdne: "hd dirs \<noteq> []" and hdsep: "hd (hd dirs) \<noteq> Separator"
    using assms by (cases dirs; cases "hd dirs"; auto simp: validName_def)+
  have j: "Join dirs [Separator] \<noteq> []" "hd (Join dirs [Separator]) \<noteq> Separator"
    using Join_nonempty [OF assms(1) hdne] hdsep by auto
  have sp: "Split_from [Separator] [] (Join dirs [Separator] @ [Separator]) = dirs @ [[]]"
    using Split_from_Join_more [OF assms(1) nosep, of "[]"] by simp
  have ce: "Clean_elems False [] (dirs @ [[]]) = dirs"
    using Clean_elems_valid [OF assms(2), of False "[]" "[[]]"] by simp
  show ?thesis
    using j sp ce by (simp add: Clean_def Split_def Let_def hd_append)
qed

lemma Dir_Join:
  assumes "dirs \<noteq> []" "\<forall>s \<in> set dirs. validName s" "Separator \<notin> set name"
  shows "Dir (Join (dirs @ [name]) [Separator]) = Join dirs [Separator]"
proof -
  have "rev (dropWhile (\<lambda>c. c \<noteq> Separator) (rev (Join dirs [Separator] @ [Separator] @ name)))
      = Join dirs [Separator] @ [Separator]"
  proof -
    have "dropWhile (\<lambda>c. c \<noteq> Separator) (rev name @ Separator # rev (Join dirs [Separator]))
        = dropWhile (\<lambda>c. c \<noteq> Separator) (Separator # rev (Join dirs [Separator]))"
      using assms(3) by (intro dropWhile_append2) auto
    then show ?thesis by simp
  qed
  then show ?thesis
    using Clean_dir_slash [OF assms(1,2)] by (simp add: Dir_def Join_snoc [OF assms(1)])
qed

lemma Split_Dir_Join:
  assumes "dirs \<noteq> []" "\<forall>s \<in> set dirs. validName s" "Separator \<notin> set name"
  shows "Split (Dir (Join (dirs @ [name]) [Separator])) [Separator] = dirs"
proof -
  have "\<forall>s \<in> set dirs. Separator \<notin> set s"
    using assms(2) by (simp add: validName_def)
  then show ?thesis
    using Split_from_Join [OF assms(1)] Dir_Join [OF assms] by (simp add: Split_def)
qed

section \<open>The closure of the walk\<close>

lemma WalkDir_skip:
  "(\<And>s. fn s v = Inr s) \<Longrightarrow> WalkDir (before @ v # after) fn s = WalkDir (before @ after) fn s"
  by (induction before arbitrary: s) (auto split: sum.splits)

lemma walkFn_vendor:
  "''vendor'' \<in> set (Split (Dir path) [Separator]) \<Longrightarrow>
   walkFn cfg opn licenses (Entry path d) = Inr licenses"
  by (simp add: walkFn_def Let_def)

text \<open>
  C9. A file below a directory named \<^verbatim>\<open>vendor\<close>, at any depth, contributes no finding,
  whatever its name, its kind and its content: the closure leaves the findings as they
  are and lets the walk go on, so the result of the detection is the one of the tree
  without that file.
\<close>

theorem vendored_file_ignored:
  assumes "\<forall>s \<in> set dirs. validName s" and "''vendor'' \<in> set dirs" and "Separator \<notin> set name"
  shows "walkFn cfg opn licenses (Entry (Join (dirs @ [name]) [Separator]) d) = Inr licenses \<and>
         detectLicenses cfg (fsys\<lparr>visits := before @ Entry (Join (dirs @ [name]) [Separator]) d # after\<rparr>)
           = detectLicenses cfg (fsys\<lparr>visits := before @ after\<rparr>)"
proof -
  have ne: "dirs \<noteq> []" using assms(2) by auto
  have v: "''vendor'' \<in> set (Split (Dir (Join (dirs @ [name]) [Separator])) [Separator])"
    using Split_Dir_Join [OF ne assms(1,3)] assms(2) by simp
  have step: "\<And>opn ls. walkFn cfg opn ls (Entry (Join (dirs @ [name]) [Separator]) d) = Inr ls"
    using v by (rule walkFn_vendor)
  show ?thesis
    using step WalkDir_skip [of "walkFn cfg (Open fsys)" "Entry (Join (dirs @ [name]) [Separator]) d" before after "[]"]
    by (simp add: detectLicenses_def)
qed

theorem vendored_file_ignored_witness:
  "validName ''vendor'' \<and> validName ''pkg'' \<and>
   Join [''vendor'', ''pkg'', ''LICENSE''] [Separator] = ''vendor/pkg/LICENSE'' \<and>
   licenseFileNames exampleDetector ''LICENSE'' = Some True \<and>
   walkFn exampleDetector (\<lambda>name. Inr ''mit'') [] (Entry ''vendor/pkg/LICENSE'' ModeRegular) = Inr []"
proof -
  have a: "\<forall>s \<in> set [''vendor'', ''pkg'']. validName s"
    by (simp add: validName_def Separator_def)
  have b: "''vendor'' \<in> set [''vendor'', ''pkg'']" by simp
  have c: "Separator \<notin> set ''LICENSE''" by (simp add: Separator_def)
  have j: "Join ([''vendor'', ''pkg''] @ [''LICENSE'']) [Separator] = ''vendor/pkg/LICENSE''"
    by (simp add: Separator_def)
  from vendored_file_ignored [OF a b c, of exampleDetector "\<lambda>name. Inr ''mit''" "[]" ModeRegular] a j
  show ?thesis by (simp add: exampleDetector_def)
qed

text \<open>
  C1 (as amended). For a license-relevant file (a recognised name, not below \<^verbatim>\<open>.git\<close>
  or a \<^verbatim>\<open>vendor\<close> directory, neither a directory nor a symbolic link, readable) whose
  scan gives a coverage below 75, the closure appends one \<^verbatim>\<open>UNKNOWN\<close> finding and
  then every identifier the scan matched; at 75 or more it appends the matched
  identifiers only.
\<close>

theorem below_threshold_findings:
  assumes "\<not> (path = ''.git'' \<or> HasPrefix path ''.git/'')"
    and "d \<noteq> ModeDir" and "d \<noteq> ModeSymlink"
    and "licenseFileNames cfg (Base path) \<noteq> None"
    and "''vendor'' \<notin> set (Split (Dir path) [Separator])"
    and "opn path = Inr buf"
  shows "(Percent (Scan cfg buf) < 75 \<longrightarrow>
            walkFn cfg opn licenses (Entry path d)
              = Inr (licenses @ ''UNKNOWN'' # map ID (Matches (Scan cfg buf)))) \<and>
         (\<not> Percent (Scan cfg buf) < 75 \<longrightarrow>
            walkFn cfg opn licenses (Entry path d)
              = Inr (licenses @ map ID (Matches (Scan cfg buf))))"
  using assms by (auto simp: walkFn_def Let_def coverageThreshold_def unknownLicenseType_def)

theorem below_threshold_findings_witness:
  "Base ''LICENSE'' = ''LICENSE'' \<and> Split (Dir ''LICENSE'') [Separator] = [''.''] \<and>
   Percent (Scan exampleDetector ''partly mit'') = 40 \<and>
   walkFn exampleDetector (\<lambda>name. Inr ''partly mit'') [''Apache-2.0''] (Entry ''LICENSE'' ModeRegular)
     = Inr [''Apache-2.0'', ''UNKNOWN'', ''MIT''] \<and>
   Percent (Scan exampleDetector ''mit'') = 100 \<and>
   walkFn exampleDetector (\<lambda>name. Inr ''mit'') [''Apache-2.0''] (Entry ''LICENSE'' ModeRegular)
     = Inr [''Apache-2.0'', ''MIT'']"
proof -
  have 1: "\<not> (''LICENSE'' = ''.git'' \<or> HasPrefix ''LICENSE'' ''.git/'')"
    by (simp add: HasPrefix_def)
  have 2: "ModeRegular \<noteq> ModeDir" "ModeRegular \<noteq> ModeSymlink"
    by simp_all
  have 3: "licenseFileNames exampleDetector (Base ''LICENSE'') \<noteq> None"
    by (simp add: exampleDetector_def eval_paths)
  have 4: "''vendor'' \<notin> set (Split (Dir ''LICENSE'') [Separator])"
    by (simp add: eval_paths)
  have 5: "(\<lambda>name. Inr ''partly mit'') ''LICENSE'' = (Inr ''partly mit'' :: error + string)"
          "(\<lambda>name. Inr ''mit'') ''LICENSE'' = (Inr ''mit'' :: error + string)"
    by simp_all
  have 6: "Percent (Scan exampleDetector ''partly mit'') = 40"
          "Matches (Scan exampleDetector ''partly mit'') = [\<lparr>ID = ''MIT''\<rparr>]"
          "Percent (Scan exampleDetector ''mit'') = 100"
          "Matches (Scan exampleDetector ''mit'') = [\<lparr>ID = ''MIT''\<rparr>]"
    by (simp_all add: exampleDetector_def)
  from below_threshold_findings [OF 1 2 3 4 5(1), of "[''Apache-2.0'']"] 6
  have a: "walkFn exampleDetector (\<lambda>name. Inr ''partly mit'') [''Apache-2.0'']
      (Entry ''LICENSE'' ModeRegular) = Inr [''Apache-2.0'', ''UNKNOWN'', ''MIT'']"
    by simp
  from below_threshold_findings [OF 1 2 3 4 5(2), of "[''Apache-2.0'']"] 6
  have b: "walkFn exampleDetector (\<lambda>name. Inr ''mit'') [''Apache-2.0'']
      (Entry ''LICENSE'' ModeRegular) = Inr [''Apache-2.0'', ''MIT'']"
    by simp
  from a b 6 show ?thesis by (simp add: eval_paths)
qed

text \<open>
  The claim as stated fails for a file that scores 40 and matches MIT in part: the
  file contributes \<^verbatim>\<open>UNKNOWN\<close> and \<^verbatim>\<open>MIT\<close>.
\<close>

theorem partial_match_counterexample:
  "Percent (Scan exampleDetector ''partly mit'') < 75 \<and>
   walkFn exampleDetector (\<lambda>name. Inr ''partly mit'') [] (Entry ''LICENSE'' ModeRegular)
     = Inr [''UNKNOWN'', ''MIT''] \<and>
   walkFn exampleDetector (\<lambda>name. Inr ''partly mit'') [] (Entry ''LICENSE'' ModeRegular)
     \<noteq> Inr [''UNKNOWN'']"
  by (simp add: exampleDetector_def eval_walk)

section \<open>The example run\<close>

lemmas eval_world =
  emit_def stat_def put_def below_def os_MkdirTemp_def os_Mkdir_def os_Create_def os_RemoveAll_def
  modeOf_def entriesBelow_def DirFS_def filepath_Join_def

lemmas eval_detect =
  getLicenseFromReader_def detectLicenses_def reduceLicenses_def Close_def Let_def

lemmas eval_examples =
  exampleURL_def dotGitURL_def taggedURL_def printURL_def exampleArchive_def exampleExternals_def
  exampleWorld_def exampleRepo_def bareRepo_def fetchedRepo_def fetchedWorld_def releasedWorld_def
  examplePackage_def exampleDocument_def exampleDetector_def

lemma example_parse:
  "parse exampleExternals ''https://github.com/foo/bar.git#abc123'' exampleWorld
     = (Return (Inr fetchedRepo), fetchedWorld)"
  by (simp add: parse_def parseRemote_def extractURLToPath_def eval_world eval_paths eval_examples)

lemma example_detect_fetched:
  "getLicenseFromReader exampleExternals (Some fetchedRepo) fetchedWorld
     = (Return (''MIT'', ''MIT''), releasedWorld)"
  by (simp add: eval_detect eval_walk eval_world eval_examples)

lemma example_detect_local:
  "getLicenseFromReader exampleExternals (Some exampleRepo) exampleWorld
     = (Return (''MIT'', ''MIT''), emit (Walk ''./repo'') exampleWorld)"
  by (simp add: eval_detect eval_walk eval_world eval_examples)

lemma example_detect_bare:
  "getLicenseFromReader exampleExternals (Some bareRepo) exampleWorld
     = (Return ([], []), emit (Walk ''./lab'') exampleWorld)"
  by (simp add: eval_detect eval_walk eval_world eval_examples)

lemma example_buildPackage:
  "buildPackage exampleExternals fetchedRepo fetchedWorld
     = (Return (examplePackage, fetchedRepo\<lparr>url := exampleURL\<lparr>Path := ''/foo/bar''\<rparr>\<rparr>), releasedWorld)"
proof -
  have "getLicenseFromReader exampleExternals
          (Some (fetchedRepo\<lparr>url := exampleURL\<lparr>Path := ''/foo/bar''\<rparr>\<rparr>)) fetchedWorld
      = (Return (''MIT'', ''MIT''), releasedWorld)"
    using example_detect_fetched by (simp add: getLicenseFromReader_def Close_def)
  then show ?thesis
    by (simp add: buildPackage_def githubUrlToDownload_def Let_def eval_paths
          exampleURL_def fetchedRepo_def examplePackage_def exampleExternals_def printURL_def)
qed

lemma example_buildSbom:
  "buildSbom exampleExternals [fetchedRepo] defaultNamespace creator fetchedWorld
     = (Return (Inr exampleDocument), releasedWorld)"
  using example_buildPackage
  by (simp add: buildSbom_def exampleDocument_def exampleExternals_def defaultNamespace_def creator_def)

lemma example_RunE:
  "RunE exampleExternals ''spdx-json'' defaultNamespace [''https://github.com/foo/bar.git#abc123'']
     exampleWorld = (Return (Inr (Json exampleDocument)), releasedWorld)"
  using example_parse example_buildSbom by (simp add: RunE_def)

section \<open>Assembling the packages\<close>

lemma getLicenseFromReader_url:
  "getLicenseFromReader ext (Some (r\<lparr>url := u\<rparr>)) w = getLicenseFromReader ext (Some r) w"
  by (simp add: getLicenseFromReader_def Close_def)

text \<open>What the body of the loop returns, field by field.\<close>

lemma buildPackage_Return:
  assumes "buildPackage ext r w = (Return (pkg, r'), w')"
  shows "\<exists>declared concluded.
           getLicenseFromReader ext (Some r) w = (Return (declared, concluded), w') \<and>
           r' = r\<lparr>url := (url r)\<lparr>Path := TrimSuffix (Path (url r)) ''.git''\<rparr>\<rparr> \<and>
           pkg = \<lparr>PackageName = Base (TrimSuffix (Path (url r)) ''.git''),
                   PackageSPDXIdentifier = Base (TrimSuffix (Path (url r)) ''.git''),
                   PackageVersion = Fragment (url r),
                   PackageDownloadLocation =
                     Scheme (url r) @ ''://'' @ Host (url r) @ TrimSuffix (Path (url r)) ''.git'' @
                     ''/archive/'' @ Fragment (url r) @ ''.tar.gz'',
                   PackageLicenseConcluded = (if concluded = [] then ''NOASSERTION'' else concluded),
                   PackageLicenseDeclared = (if declared = [] then ''NONE'' else declared),
                   PackageExternalReferences =
                     [\<lparr>Category = ''PACKAGE-MANAGER'', RefType = ''purl'',
                       Locator = ''pkg:generic/git?download_url='' @
                         url_String ext ((url r)\<lparr>Path := TrimSuffix (Path (url r)) ''.git''\<rparr>)\<rparr>]\<rparr>"
proof -
  obtain res w1 where g: "getLicenseFromReader ext (Some r) w = (res, w1)"
    by (cases "getLicenseFromReader ext (Some r) w")
  show ?thesis
  proof (cases res)
    case (Return dc)
    obtain declared concluded where dc: "dc = (declared, concluded)" by (cases dc)
    show ?thesis
      using assms g Return dc
      by (auto simp: buildPackage_def githubUrlToDownload_def getLicenseFromReader_url Let_def)
  next
    case (Exit m)
    then show ?thesis using assms g
      by (simp add: buildPackage_def githubUrlToDownload_def getLicenseFromReader_url Let_def)
  next
    case (Panic m)
    then show ?thesis using assms g
      by (simp add: buildPackage_def githubUrlToDownload_def getLicenseFromReader_url Let_def)
  qed
qed

text \<open>The body of the loop returns whenever the detection does.\<close>

lemma buildPackage_total:
  assumes "getLicenseFromReader ext (Some r) w = (Return (declared, concluded), w')"
  shows "\<exists>pkg r'. buildPackage ext r w = (Return (pkg, r'), w')"
  using assms
  by (simp add: buildPackage_def githubUrlToDownload_def getLicenseFromReader_url Let_def)

lemma buildPackages_Return:
  "buildPackages ext repos packages w = (Return pkgs, w') \<Longrightarrow>
   \<exists>ps. pkgs = packages @ ps \<and>
        list_all2 (\<lambda>r p. \<exists>w1 w2 r'. buildPackage ext r w1 = (Return (p, r'), w2)) repos ps"
proof (induction repos arbitrary: packages w)
  case Nil
  then show ?case by simp
next
  case (Cons r repos)
  obtain res w1 where b: "buildPackage ext r w = (res, w1)"
    by (cases "buildPackage ext r w")
  show ?case
  proof (cases res)
    case (Return pr)
    obtain p r' where pr: "pr = (p, r')" by (cases pr)
    from Cons.prems b Return pr
    have "buildPackages ext repos (packages @ [p]) w1 = (Return pkgs, w')" by simp
    from Cons.IH [OF this] obtain ps where
      ps: "pkgs = (packages @ [p]) @ ps"
          "list_all2 (\<lambda>r p. \<exists>w1 w2 r'. buildPackage ext r w1 = (Return (p, r'), w2)) repos ps"
      by blast
    have "buildPackage ext r w = (Return (p, r'), w1)" using b Return pr by simp
    then have "list_all2 (\<lambda>r p. \<exists>w1 w2 r'. buildPackage ext r w1 = (Return (p, r'), w2))
        (r # repos) (p # ps)"
      using ps(2) by blast
    with ps(1) show ?thesis by (intro exI [of _ "p # ps"]) simp
  next
    case (Exit m)
    with Cons.prems b show ?thesis by simp
  next
    case (Panic m)
    with Cons.prems b show ?thesis by simp
  qed
qed

lemma buildSbom_Return:
  assumes "buildSbom ext repos namespace cr w = (Return (Inr doc), w')"
  shows "list_all2 (\<lambda>r p. \<exists>w1 w2 r'. buildPackage ext r w1 = (Return (p, r'), w2)) repos (Packages doc)"
proof -
  obtain res w1 where b: "buildPackages ext repos [] w = (res, w1)"
    by (cases "buildPackages ext repos [] w")
  show ?thesis
  proof (cases res)
    case (Return pkgs)
    with assms b have "Packages doc = pkgs" by (auto simp: buildSbom_def)
    with buildPackages_Return [of ext repos "[]" w pkgs w1] b Return show ?thesis by auto
  next
    case (Exit m)
    with assms b show ?thesis by (simp add: buildSbom_def)
  next
    case (Panic m)
    with assms b show ?thesis by (simp add: buildSbom_def)
  qed
qed

section \<open>From the arguments to the repositories\<close>

lemma parseRemote_repo:
  "parseRemote ext a w = (Return (Inr (repo, dir, c)), w') \<Longrightarrow> repo = a"
  by (auto simp: parseRemote_def split: prod.splits sum.splits outcome.splits option.splits)

lemma parse_url_of_argument:
  assumes "parse ext a w = (Return (Inr r), w')"
    and "\<not> (HasPrefix a ''/'' \<or> HasPrefix a ''.'')"
  shows "url_Parse ext a = Inr (url r)"
proof -
  obtain res w1 where p: "parseRemote ext a w = (res, w1)"
    by (cases "parseRemote ext a w")
  show ?thesis
  proof (cases res)
    case (Return x)
    show ?thesis
    proof (cases x)
      case (Inl err)
      with assms p Return show ?thesis by (simp add: parse_def)
    next
      case (Inr t)
      obtain repo dir c where t: "t = (repo, dir, c)" by (cases t)
      have "repo = a" using parseRemote_repo p Return Inr t by blast
      with assms p Return Inr t show ?thesis
        by (auto simp: parse_def split: sum.splits if_splits)
    qed
  next
    case (Exit m)
    with assms p show ?thesis by (simp add: parse_def)
  next
    case (Panic m)
    with assms p show ?thesis by (simp add: parse_def)
  qed
qed

lemma parseArgs_Return:
  "parseArgs ext args allRepos w = (Return repos, w') \<Longrightarrow>
   \<exists>rs. repos = allRepos @ rs \<and>
        list_all2 (\<lambda>a r. \<exists>w1 w2. parse ext a w1 = (Return (Inr r), w2)) args rs"
proof (induction args arbitrary: allRepos w)
  case Nil
  then show ?case by simp
next
  case (Cons a args)
  obtain res w1 where p: "parse ext a w = (res, w1)"
    by (cases "parse ext a w")
  show ?case
  proof (cases res)
    case (Return x)
    show ?thesis
    proof (cases x)
      case (Inl err)
      with Cons.prems p Return show ?thesis by simp
    next
      case (Inr r)
      from Cons.prems p Return Inr
      have "parseArgs ext args (allRepos @ [r]) w1 = (Return repos, w')" by simp
      from Cons.IH [OF this] obtain rs where
        rs: "repos = (allRepos @ [r]) @ rs"
            "list_all2 (\<lambda>a r. \<exists>w1 w2. parse ext a w1 = (Return (Inr r), w2)) args rs"
        by blast
      have "parse ext a w = (Return (Inr r), w1)" using p Return Inr by simp
      then have "list_all2 (\<lambda>a r. \<exists>w1 w2. parse ext a w1 = (Return (Inr r), w2)) (a # args) (r # rs)"
        using rs(2) by blast
      with rs(1) show ?thesis by (intro exI [of _ "r # rs"]) simp
    qed
  next
    case (Exit m)
    with Cons.prems p show ?thesis by simp
  next
    case (Panic m)
    with Cons.prems p show ?thesis by simp
  qed
qed

lemma RunE_Return:
  assumes "RunE ext outputFormat namespace args w = (Return (Inr out), w')"
  shows "\<exists>repos w1. parseArgs ext args [] w = (Return repos, w1) \<and>
           buildSbom ext repos namespace creator w1 = (Return (Inr (document out)), w')"
proof -
  obtain res w1 where p: "parseArgs ext args [] w = (res, w1)"
    by (cases "parseArgs ext args [] w")
  show ?thesis
  proof (cases res)
    case (Return repos)
    obtain res2 w2 where b: "buildSbom ext repos namespace creator w1 = (res2, w2)"
      by (cases "buildSbom ext repos namespace creator w1")
    from assms p Return b show ?thesis
      by (auto simp: RunE_def split: if_splits outcome.splits sum.splits)
  next
    case (Exit m)
    with assms p show ?thesis by (simp add: RunE_def)
  next
    case (Panic m)
    with assms p show ?thesis by (simp add: RunE_def)
  qed
qed

text \<open>
  C6. A run that writes a document has one package per argument, in order; for an
  argument that is a URL, the version of its package is the fragment of the URL as
  \<^verbatim>\<open>url.Parse\<close> returns it.
\<close>

theorem version_equals_fragment:
  assumes "RunE ext outputFormat namespace args w = (Return (Inr out), w')"
  shows "list_all2
           (\<lambda>arg pkg. \<not> (HasPrefix arg ''/'' \<or> HasPrefix arg ''.'') \<longrightarrow>
              (\<exists>u. url_Parse ext arg = Inr u \<and> PackageVersion pkg = Fragment u))
           args (Packages (document out))"
proof -
  obtain repos w1 where
    p: "parseArgs ext args [] w = (Return repos, w1)" and
    b: "buildSbom ext repos namespace creator w1 = (Return (Inr (document out)), w')"
    using RunE_Return [OF assms] by blast
  have 1: "list_all2 (\<lambda>a r. \<exists>w1 w2. parse ext a w1 = (Return (Inr r), w2)) args repos"
    using parseArgs_Return [OF p] by simp
  have 2: "list_all2 (\<lambda>r p. \<exists>w1 w2 r'. buildPackage ext r w1 = (Return (p, r'), w2))
      repos (Packages (document out))"
    using buildSbom_Return [OF b] .
  show ?thesis
  proof (rule list_all2_trans [OF _ 1 2])
    fix a r pkg
    assume "\<exists>w1 w2. parse ext a w1 = (Return (Inr r), w2)"
      and "\<exists>w1 w2 r'. buildPackage ext r w1 = (Return (pkg, r'), w2)"
    then show "\<not> (HasPrefix a ''/'' \<or> HasPrefix a ''.'') \<longrightarrow>
        (\<exists>u. url_Parse ext a = Inr u \<and> PackageVersion pkg = Fragment u)"
      using parse_url_of_argument buildPackage_Return by fastforce
  qed
qed

theorem version_equals_fragment_witness:
  "RunE exampleExternals ''spdx-json'' defaultNamespace [''https://github.com/foo/bar.git#abc123'']
     exampleWorld = (Return (Inr (Json exampleDocument)), releasedWorld) \<and>
   \<not> HasPrefix ''https://github.com/foo/bar.git#abc123'' ''/'' \<and>
   \<not> HasPrefix ''https://github.com/foo/bar.git#abc123'' ''.'' \<and>
   url_Parse exampleExternals ''https://github.com/foo/bar.git#abc123'' = Inr exampleURL \<and>
   Fragment exampleURL = ''abc123'' \<and>
   map PackageVersion (Packages exampleDocument) = [''abc123'']"
proof -
  have a: "\<not> HasPrefix ''https://github.com/foo/bar.git#abc123'' ''/''"
          "\<not> HasPrefix ''https://github.com/foo/bar.git#abc123'' ''.''"
    by (simp_all add: HasPrefix_def)
  have u: "url_Parse exampleExternals ''https://github.com/foo/bar.git#abc123'' = Inr exampleURL"
    by (simp add: exampleExternals_def)
  have f: "Fragment exampleURL = ''abc123''"
    by (simp add: exampleURL_def)
  have p: "Packages exampleDocument = [examplePackage]"
    by (simp add: exampleDocument_def)
  from version_equals_fragment [OF example_RunE]
  have "\<exists>v. url_Parse exampleExternals ''https://github.com/foo/bar.git#abc123'' = Inr v \<and>
            PackageVersion examplePackage = Fragment v"
    using a p by simp
  then have "PackageVersion examplePackage = ''abc123''"
    using u f by auto
  with example_RunE a u f p show ?thesis by simp
qed

text \<open>
  C7. The download location of every package of a document is
  \<^verbatim>\<open>scheme://host/path/archive/revision.tar.gz\<close>, where the path has lost one trailing
  \<^verbatim>\<open>.git\<close> if it had one.
\<close>

theorem download_location:
  assumes "buildSbom ext repos namespace cr w = (Return (Inr doc), w')"
  shows "list_all2
           (\<lambda>r pkg.
              PackageDownloadLocation pkg =
                Scheme (url r) @ ''://'' @ Host (url r) @ TrimSuffix (Path (url r)) ''.git'' @
                ''/archive/'' @ Fragment (url r) @ ''.tar.gz'' \<and>
              (\<forall>p. Path (url r) = p @ ''.git'' \<longrightarrow>
                 PackageDownloadLocation pkg =
                   Scheme (url r) @ ''://'' @ Host (url r) @ p @
                   ''/archive/'' @ Fragment (url r) @ ''.tar.gz''))
           repos (Packages doc)"
proof -
  have t: "\<And>p. TrimSuffix (p @ ''.git'') ''.git'' = p"
    by (simp add: TrimSuffix_def HasSuffix_def)
  show ?thesis
    using buildSbom_Return [OF assms]
  proof (rule list_all2_mono)
    fix r pkg
    assume "\<exists>w1 w2 r'. buildPackage ext r w1 = (Return (pkg, r'), w2)"
    then obtain w1 w2 r' where "buildPackage ext r w1 = (Return (pkg, r'), w2)" by blast
    from buildPackage_Return [OF this]
    have "PackageDownloadLocation pkg =
        Scheme (url r) @ ''://'' @ Host (url r) @ TrimSuffix (Path (url r)) ''.git'' @
        ''/archive/'' @ Fragment (url r) @ ''.tar.gz''"
      by auto
    then show "PackageDownloadLocation pkg =
                Scheme (url r) @ ''://'' @ Host (url r) @ TrimSuffix (Path (url r)) ''.git'' @
                ''/archive/'' @ Fragment (url r) @ ''.tar.gz'' \<and>
              (\<forall>p. Path (url r) = p @ ''.git'' \<longrightarrow>
                 PackageDownloadLocation pkg =
                   Scheme (url r) @ ''://'' @ Host (url r) @ p @
                   ''/archive/'' @ Fragment (url r) @ ''.tar.gz'')"
      using t by auto
  qed
qed

theorem download_location_witness:
  "parse exampleExternals ''https://github.com/foo/bar.git#abc123'' exampleWorld
     = (Return (Inr fetchedRepo), fetchedWorld) \<and>
   buildSbom exampleExternals [fetchedRepo] defaultNamespace creator fetchedWorld
     = (Return (Inr exampleDocument), releasedWorld) \<and>
   Path (url fetchedRepo) = ''/foo/bar'' @ ''.git'' \<and>
   map PackageDownloadLocation (Packages exampleDocument)
     = [''https://github.com/foo/bar/archive/abc123.tar.gz'']"
proof -
  have p: "Packages exampleDocument = [examplePackage]"
    by (simp add: exampleDocument_def)
  have u: "Path (url fetchedRepo) = ''/foo/bar'' @ ''.git''" "Scheme (url fetchedRepo) = ''https''"
    "Host (url fetchedRepo) = ''github.com''" "Fragment (url fetchedRepo) = ''abc123''"
    by (simp_all add: fetchedRepo_def exampleURL_def)
  let ?P = "\<lambda>r pkg.
      PackageDownloadLocation pkg =
        Scheme (url r) @ ''://'' @ Host (url r) @ TrimSuffix (Path (url r)) ''.git'' @
        ''/archive/'' @ Fragment (url r) @ ''.tar.gz'' \<and>
      (\<forall>p. Path (url r) = p @ ''.git'' \<longrightarrow>
         PackageDownloadLocation pkg =
           Scheme (url r) @ ''://'' @ Host (url r) @ p @
           ''/archive/'' @ Fragment (url r) @ ''.tar.gz'')"
  have "list_all2 ?P [fetchedRepo] [examplePackage]"
    using download_location [OF example_buildSbom] unfolding p .
  then have "?P fetchedRepo examplePackage"
    by (rule list_all2_Cons [THEN iffD1, THEN conjunct1])
  then have "\<forall>p. Path (url fetchedRepo) = p @ ''.git'' \<longrightarrow>
          PackageDownloadLocation examplePackage =
            Scheme (url fetchedRepo) @ ''://'' @ Host (url fetchedRepo) @ p @
            ''/archive/'' @ Fragment (url fetchedRepo) @ ''.tar.gz''"
    by (rule conjunct2)
  then have "PackageDownloadLocation examplePackage =
      Scheme (url fetchedRepo) @ ''://'' @ Host (url fetchedRepo) @ ''/foo/bar'' @
      ''/archive/'' @ Fragment (url fetchedRepo) @ ''.tar.gz''"
    using u(1) by blast
  then have "PackageDownloadLocation examplePackage
      = ''https://github.com/foo/bar/archive/abc123.tar.gz''"
    using u by simp
  with example_parse example_buildSbom u(1) p show ?thesis by simp
qed

section \<open>Licenses and names of a package\<close>

lemma getLicenseFromReader_Return:
  assumes "getLicenseFromReader ext (Some r) w = (Return res, w')"
  shows "res = detectLicenses (det ext) (DirFS w (readerDir r))"
proof -
  obtain c w1 where c: "Close r (emit (Walk (readerDir r)) w) = (c, w1)"
    by (cases "Close r (emit (Walk (readerDir r)) w)")
  with assms show ?thesis
    by (cases c) (simp_all add: getLicenseFromReader_def)
qed

lemma example_buildPackage_bare:
  "buildPackage exampleExternals bareRepo exampleWorld
     = (Return (barePackage, bareRepo), emit (Walk ''./lab'') exampleWorld)"
proof -
  have "getLicenseFromReader exampleExternals (Some (bareRepo\<lparr>url := taggedURL\<rparr>)) exampleWorld
      = (Return ([], []), emit (Walk ''./lab'') exampleWorld)"
    using example_detect_bare by (simp add: getLicenseFromReader_def Close_def)
  then show ?thesis
    by (simp add: buildPackage_def githubUrlToDownload_def Let_def eval_paths
          exampleURL_def taggedURL_def bareRepo_def barePackage_def exampleExternals_def printURL_def)
qed

lemma example_buildPackage_dotGit:
  "buildPackage exampleExternals dotGitRepo exampleWorld
     = (Return (dotGitPackage, dotGitRepo\<lparr>url := dotGitURL\<lparr>Path := ''/foo/''\<rparr>\<rparr>),
        emit (Walk ''./repo'') exampleWorld)"
proof -
  have "getLicenseFromReader exampleExternals
          (Some (dotGitRepo\<lparr>url := dotGitURL\<lparr>Path := ''/foo/''\<rparr>\<rparr>)) exampleWorld
      = (Return (''MIT'', ''MIT''), emit (Walk ''./repo'') exampleWorld)"
    using example_detect_local
    by (simp add: getLicenseFromReader_def Close_def dotGitRepo_def exampleRepo_def)
  then show ?thesis
    by (simp add: buildPackage_def githubUrlToDownload_def Let_def eval_paths
          exampleURL_def dotGitURL_def dotGitRepo_def dotGitPackage_def exampleExternals_def
          printURL_def)
qed

text \<open>
  C8. Whenever the detection returns for a repository, its package is assembled, with
  declared license \<^verbatim>\<open>NONE\<close> when the declared string is empty and the string itself
  otherwise, and with concluded license \<^verbatim>\<open>NOASSERTION\<close> when the concluded string is
  empty and the string itself otherwise. Both strings are empty when the walk ends on
  an error and when it finds nothing.
\<close>

theorem license_defaults:
  assumes "getLicenseFromReader ext (Some r) w = (Return (declared, concluded), w')"
  shows "\<exists>pkg r'.
           buildPackage ext r w = (Return (pkg, r'), w') \<and>
           PackageLicenseDeclared pkg = (if declared = [] then ''NONE'' else declared) \<and>
           PackageLicenseConcluded pkg = (if concluded = [] then ''NOASSERTION'' else concluded) \<and>
           (\<forall>e. WalkDir (visits (DirFS w (readerDir r)))
                  (walkFn (det ext) (Open (DirFS w (readerDir r)))) [] = Inl e \<longrightarrow>
                declared = [] \<and> concluded = []) \<and>
           (WalkDir (visits (DirFS w (readerDir r)))
              (walkFn (det ext) (Open (DirFS w (readerDir r)))) [] = Inr [] \<longrightarrow>
                declared = [] \<and> concluded = [])"
proof -
  obtain pkg r' where b: "buildPackage ext r w = (Return (pkg, r'), w')"
    using buildPackage_total [OF assms] by blast
  from buildPackage_Return [OF b] assms
  have l: "PackageLicenseDeclared pkg = (if declared = [] then ''NONE'' else declared)"
          "PackageLicenseConcluded pkg = (if concluded = [] then ''NOASSERTION'' else concluded)"
    by auto
  have d: "(declared, concluded) = detectLicenses (det ext) (DirFS w (readerDir r))"
    using getLicenseFromReader_Return [OF assms] .
  have e: "\<forall>e. WalkDir (visits (DirFS w (readerDir r)))
                  (walkFn (det ext) (Open (DirFS w (readerDir r)))) [] = Inl e \<longrightarrow>
                declared = [] \<and> concluded = []"
    using d by (auto simp: detectLicenses_def)
  have n: "WalkDir (visits (DirFS w (readerDir r)))
              (walkFn (det ext) (Open (DirFS w (readerDir r)))) [] = Inr [] \<longrightarrow>
                declared = [] \<and> concluded = []"
    using d by (auto simp: detectLicenses_def reduceLicenses_def)
  from b l e n show ?thesis by blast
qed

theorem license_defaults_witness:
  "getLicenseFromReader exampleExternals (Some bareRepo) exampleWorld
     = (Return ([], []), emit (Walk ''./lab'') exampleWorld) \<and>
   WalkDir (visits (DirFS exampleWorld (readerDir bareRepo)))
     (walkFn (det exampleExternals) (Open (DirFS exampleWorld (readerDir bareRepo)))) [] = Inr [] \<and>
   buildPackage exampleExternals bareRepo exampleWorld
     = (Return (barePackage, bareRepo), emit (Walk ''./lab'') exampleWorld) \<and>
   PackageLicenseDeclared barePackage = ''NONE'' \<and>
   PackageLicenseConcluded barePackage = ''NOASSERTION'' \<and>
   getLicenseFromReader exampleExternals (Some fetchedRepo) fetchedWorld
     = (Return (''MIT'', ''MIT''), releasedWorld) \<and>
   PackageLicenseDeclared examplePackage = ''MIT'' \<and>
   PackageLicenseConcluded examplePackage = ''MIT'' \<and>
   WalkDir (visits (DirFS releasedWorld (readerDir fetchedRepo)))
     (walkFn (det exampleExternals) (Open (DirFS releasedWorld (readerDir fetchedRepo)))) []
     = Inl (Error ''stat /tmp/sbom1/.: no such file or directory'') \<and>
   (\<exists>pkg r'.
      buildPackage exampleExternals fetchedRepo releasedWorld
        = (Return (pkg, r'), os_RemoveAll ''/tmp/sbom1'' (emit (Walk ''/tmp/sbom1'') releasedWorld)) \<and>
      PackageLicenseDeclared pkg = ''NONE'' \<and>
      PackageLicenseConcluded pkg = ''NOASSERTION'')"
proof -
  from license_defaults [OF example_detect_bare] example_buildPackage_bare
  have 1: "PackageLicenseDeclared barePackage = ''NONE''"
          "PackageLicenseConcluded barePackage = ''NOASSERTION''"
    by auto
  from license_defaults [OF example_detect_fetched] example_buildPackage
  have 2: "PackageLicenseDeclared examplePackage = ''MIT''"
          "PackageLicenseConcluded examplePackage = ''MIT''"
    by auto
  have 3: "WalkDir (visits (DirFS exampleWorld (readerDir bareRepo)))
      (walkFn (det exampleExternals) (Open (DirFS exampleWorld (readerDir bareRepo)))) [] = Inr []"
    by (simp add: eval_walk eval_world eval_examples)
  have 4: "WalkDir (visits (DirFS releasedWorld (readerDir fetchedRepo)))
      (walkFn (det exampleExternals) (Open (DirFS releasedWorld (readerDir fetchedRepo)))) []
      = Inl (Error ''stat /tmp/sbom1/.: no such file or directory'')"
    by (simp add: eval_walk eval_world eval_examples)
  have 5: "getLicenseFromReader exampleExternals (Some fetchedRepo) releasedWorld
      = (Return ([], []), os_RemoveAll ''/tmp/sbom1'' (emit (Walk ''/tmp/sbom1'') releasedWorld))"
    using 4 by (simp add: getLicenseFromReader_def detectLicenses_def Close_def fetchedRepo_def)
  from license_defaults [OF 5]
  have 6: "\<exists>pkg r'.
      buildPackage exampleExternals fetchedRepo releasedWorld
        = (Return (pkg, r'), os_RemoveAll ''/tmp/sbom1'' (emit (Walk ''/tmp/sbom1'') releasedWorld)) \<and>
      PackageLicenseDeclared pkg = ''NONE'' \<and>
      PackageLicenseConcluded pkg = ''NOASSERTION''"
    by auto
  from 1 2 3 4 6 example_detect_bare example_buildPackage_bare example_detect_fetched
  show ?thesis by simp
qed

lemma Base_last_element:
  assumes "d = [] \<or> last d = Separator" and "seg \<noteq> []" and "Separator \<notin> set seg"
  shows "Base (d @ seg) = seg"
proof -
  have 1: "dropWhile (\<lambda>c. c = Separator) (rev seg @ rev d) = rev seg @ rev d"
    using assms(2,3) by (cases seg rule: rev_cases) auto
  have 2: "takeWhile (\<lambda>c. c \<noteq> Separator) (rev d) = []"
    using assms(1) by (cases d rule: rev_cases) auto
  have 3: "takeWhile (\<lambda>c. c \<noteq> Separator) (rev seg @ rev d) = rev seg"
  proof -
    have "takeWhile (\<lambda>c. c \<noteq> Separator) (rev seg @ rev d)
        = rev seg @ takeWhile (\<lambda>c. c \<noteq> Separator) (rev d)"
      using assms(3) by (intro takeWhile_append2) auto
    with 2 show ?thesis by simp
  qed
  show ?thesis
    using assms(2) 1 3 by (simp add: Base_def)
qed

text \<open>
  C10 (as amended). When the path of the URL ends in a non-empty name followed by
  \<^verbatim>\<open>.git\<close>, assembling the package leaves the URL of the repository with that suffix
  removed from its path, the name of the package is that last name without the suffix,
  and the locator of the purl reference prints the URL without the suffix.
\<close>

theorem git_suffix_removed_in_place:
  assumes "buildPackage ext r w = (Return (pkg, r'), w')"
    and "Path (url r) = d @ seg @ ''.git''"
    and "d = [] \<or> last d = Separator" and "seg \<noteq> []" and "Separator \<notin> set seg"
  shows "url r' = (url r)\<lparr>Path := d @ seg\<rparr> \<and>
         PackageName pkg = seg \<and>
         map Locator (PackageExternalReferences pkg)
           = [''pkg:generic/git?download_url='' @ url_String ext ((url r)\<lparr>Path := d @ seg\<rparr>)]"
proof -
  have t: "TrimSuffix (Path (url r)) ''.git'' = d @ seg"
    using assms(2) by (simp add: TrimSuffix_def HasSuffix_def)
  from buildPackage_Return [OF assms(1)] t Base_last_element [OF assms(3-5)]
  show ?thesis by auto
qed

theorem git_suffix_removed_in_place_witness:
  "buildPackage exampleExternals fetchedRepo fetchedWorld
     = (Return (examplePackage, fetchedRepo\<lparr>url := exampleURL\<lparr>Path := ''/foo/bar''\<rparr>\<rparr>), releasedWorld) \<and>
   Path (url fetchedRepo) = ''/foo/'' @ ''bar'' @ ''.git'' \<and>
   last ''/foo/'' = Separator \<and> Separator \<notin> set ''bar'' \<and>
   nameSpec (Path (url fetchedRepo)) = ''bar'' \<and>
   PackageName examplePackage = ''bar'' \<and>
   map Locator (PackageExternalReferences examplePackage)
     = [''pkg:generic/git?download_url=https://github.com/foo/bar#abc123'']"
proof -
  have 2: "Path (url fetchedRepo) = ''/foo/'' @ ''bar'' @ ''.git''"
    by (simp add: fetchedRepo_def exampleURL_def)
  have 3: "''/foo/'' = [] \<or> last ''/foo/'' = Separator"
    by (simp add: Separator_def)
  have 4: "''bar'' \<noteq> []" "Separator \<notin> set ''bar''"
    by (simp_all add: Separator_def)
  have n: "nameSpec (Path (url fetchedRepo)) = ''bar''"
    by (simp add: nameSpec_def fetchedRepo_def exampleURL_def eval_paths)
  have u: "url_String exampleExternals ((url fetchedRepo)\<lparr>Path := ''/foo/'' @ ''bar''\<rparr>)
      = ''https://github.com/foo/bar#abc123''"
    by (simp add: exampleExternals_def printURL_def fetchedRepo_def exampleURL_def)
  from git_suffix_removed_in_place [OF example_buildPackage 2 3 4]
  have "PackageName examplePackage = ''bar''"
       "map Locator (PackageExternalReferences examplePackage)
          = [''pkg:generic/git?download_url='' @
             url_String exampleExternals ((url fetchedRepo)\<lparr>Path := ''/foo/'' @ ''bar''\<rparr>)]"
    by simp_all
  with example_buildPackage 2 3 4 n u show ?thesis by simp
qed

text \<open>
  The claim as stated fails for the path \<^verbatim>\<open>/foo/.git\<close>: it ends in \<^verbatim>\<open>.git\<close>, its final
  segment without the suffix is empty, and the package is named \<^verbatim>\<open>foo\<close>.
\<close>

theorem dot_git_name_counterexample:
  "HasSuffix (Path (url dotGitRepo)) ''.git'' \<and>
   nameSpec (Path (url dotGitRepo)) = [] \<and>
   buildPackage exampleExternals dotGitRepo exampleWorld
     = (Return (dotGitPackage, dotGitRepo\<lparr>url := dotGitURL\<lparr>Path := ''/foo/''\<rparr>\<rparr>),
        emit (Walk ''./repo'') exampleWorld) \<and>
   PackageName dotGitPackage = ''foo''"
  using example_buildPackage_dotGit
  by (simp add: nameSpec_def dotGitRepo_def dotGitURL_def exampleURL_def dotGitPackage_def eval_paths)

section \<open>The URL derived for a working copy\<close>

lemma HasPrefix_append: "HasPrefix (p @ s) p"
  by (simp add: HasPrefix_def)

lemma Replace_from_zero: "Replace_from old new 0 s = s"
  by (cases s) simp_all

lemma Replace_first_prefix:
  assumes "old \<noteq> []" and "old \<noteq> new"
  shows "Replace (old @ rest) old new 1 = new @ rest"
proof -
  obtain c cs where s: "old @ rest = c # cs"
    using assms(1) by (cases "old @ rest") auto
  have "HasPrefix (c # cs) old"
    using HasPrefix_append [of old rest] s by simp
  moreover have "drop (length old) (c # cs) = rest"
    using s by (metis append_eq_conv_conj)
  ultimately have "Replace_from old new 1 (c # cs) = new @ rest"
    using assms(1) by (simp add: Replace_from_zero)
  then show ?thesis
    using assms(2) s by (simp add: Replace_def)
qed

lemma Replace_from_absent:
  "\<not> Contains s old \<Longrightarrow> Replace_from old new n s = s"
  by (induction s) auto

lemma Replace_absent:
  "\<not> Contains s old \<Longrightarrow> Replace s old new n = s"
  by (simp add: Replace_def Replace_from_absent)

text \<open>
  C4 (as amended). For a file path whose working copy opens, has URLs configured for
  \<^verbatim>\<open>origin\<close> and has a \<^verbatim>\<open>HEAD\<close>: when the first URL starts with \<^verbatim>\<open>git@github.com:\<close> the
  derived URL is \<^verbatim>\<open>https://github.com/\<close>, the rest of that URL, \<^verbatim>\<open>#\<close> and the commit;
  when the first URL does not contain \<^verbatim>\<open>git@github.com:\<close> it is kept as it is, before
  \<^verbatim>\<open>#\<close> and the commit.
\<close>

theorem github_origin_rewritten:
  assumes "PlainOpen ext path = Inr repo"
    and "Remote repo ''origin'' = Inr (origin # others)"
    and "Head repo = Inr commit"
  shows "(\<forall>rest. origin = ''git@github.com:'' @ rest \<longrightarrow>
            parseLocal ext path w =
              (Return (Inr (''https://github.com/'' @ rest @ ''#'' @ commit, path, None)),
               emit (GitOpen path) w)) \<and>
         (\<not> Contains origin ''git@github.com:'' \<longrightarrow>
            parseLocal ext path w =
              (Return (Inr (origin @ ''#'' @ commit, path, None)), emit (GitOpen path) w))"
proof (intro conjI allI impI)
  fix rest
  assume "origin = ''git@github.com:'' @ rest"
  then have "Replace origin ''git@github.com:'' ''https://github.com/'' 1 = ''https://github.com/'' @ rest"
    using Replace_first_prefix [of "''git@github.com:''" "''https://github.com/''" rest] by simp
  then show "parseLocal ext path w =
      (Return (Inr (''https://github.com/'' @ rest @ ''#'' @ commit, path, None)), emit (GitOpen path) w)"
    using assms by (simp add: parseLocal_def Let_def)
next
  assume "\<not> Contains origin ''git@github.com:''"
  then have "Replace origin ''git@github.com:'' ''https://github.com/'' 1 = origin"
    by (rule Replace_absent)
  then show "parseLocal ext path w =
      (Return (Inr (origin @ ''#'' @ commit, path, None)), emit (GitOpen path) w)"
    using assms by (simp add: parseLocal_def Let_def)
qed

theorem github_origin_rewritten_witness:
  "PlainOpen exampleExternals ''./repo'' = Inr exampleCopy \<and>
   Remote exampleCopy ''origin'' = Inr [''git@github.com:foo/bar.git''] \<and>
   Head exampleCopy = Inr ''abc123'' \<and>
   parseLocal exampleExternals ''./repo'' exampleWorld =
     (Return (Inr (''https://github.com/foo/bar.git#abc123'', ''./repo'', None)),
      emit (GitOpen ''./repo'') exampleWorld) \<and>
   PlainOpen exampleExternals ''./lab'' = Inr labCopy \<and>
   Remote labCopy ''origin'' = Inr [''git@gitlab.com:foo/bar.git''] \<and>
   Head labCopy = Inr ''abc123'' \<and>
   \<not> Contains ''git@gitlab.com:foo/bar.git'' ''git@github.com:'' \<and>
   parseLocal exampleExternals ''./lab'' exampleWorld =
     (Return (Inr (''git@gitlab.com:foo/bar.git#abc123'', ''./lab'', None)),
      emit (GitOpen ''./lab'') exampleWorld)"
proof -
  have 1: "PlainOpen exampleExternals ''./repo'' = Inr exampleCopy"
    by (simp add: exampleExternals_def)
  have 2: "Remote exampleCopy ''origin'' = Inr (''git@github.com:foo/bar.git'' # [])"
    by (simp add: exampleCopy_def)
  have 3: "Head exampleCopy = Inr ''abc123''"
    by (simp add: exampleCopy_def)
  have 4: "''git@github.com:foo/bar.git'' = ''git@github.com:'' @ ''foo/bar.git''"
    by simp
  from github_origin_rewritten [OF 1 2 3, of exampleWorld]
  have a: "parseLocal exampleExternals ''./repo'' exampleWorld =
      (Return (Inr (''https://github.com/'' @ ''foo/bar.git'' @ ''#'' @ ''abc123'', ''./repo'', None)),
       emit (GitOpen ''./repo'') exampleWorld)"
    using 4 by blast
  have 5: "PlainOpen exampleExternals ''./lab'' = Inr labCopy"
    by (simp add: exampleExternals_def)
  have 6: "Remote labCopy ''origin'' = Inr (''git@gitlab.com:foo/bar.git'' # [])"
    by (simp add: labCopy_def)
  have 7: "Head labCopy = Inr ''abc123''"
    by (simp add: labCopy_def)
  have 8: "\<not> Contains ''git@gitlab.com:foo/bar.git'' ''git@github.com:''"
    by (simp add: HasPrefix_def)
  from github_origin_rewritten [OF 5 6 7, of exampleWorld]
  have b: "parseLocal exampleExternals ''./lab'' exampleWorld =
      (Return (Inr (''git@gitlab.com:foo/bar.git'' @ ''#'' @ ''abc123'', ''./lab'', None)),
       emit (GitOpen ''./lab'') exampleWorld)"
    using 8 by blast
  from 1 2 3 a 5 6 7 8 b show ?thesis by simp
qed

text \<open>
  The claim as stated fails for an origin on another host: the URL derived for the
  working copy \<^verbatim>\<open>./lab\<close> still starts with \<^verbatim>\<open>git@gitlab.com:\<close>.
\<close>

theorem gitlab_origin_counterexample:
  "parseLocal exampleExternals ''./lab'' exampleWorld =
     (Return (Inr (''git@gitlab.com:foo/bar.git#abc123'', ''./lab'', None)),
      emit (GitOpen ''./lab'') exampleWorld) \<and>
   HasPrefix ''git@gitlab.com:foo/bar.git#abc123'' ''git@gitlab.com:'' \<and>
   \<not> HasPrefix ''git@gitlab.com:foo/bar.git#abc123'' ''https://gitlab.com/''"
  by (simp add: parseLocal_def Replace_def HasPrefix_def exampleExternals_def labCopy_def)

section \<open>Facts about the file system\<close>

lemma effects_put [simp]: "effects (put p n w) = effects w"
  by (simp add: put_def)

lemma effects_emit [simp]: "effects (emit e w) = effects w @ [e]"
  by (simp add: emit_def)






section \<open>What a run does before it looks at the format\<close>






















section \<open>Running the detection twice\<close>












end
